theory Spec2Isabelle
  imports Main
begin

section \<open>The sync engine of xBrowserSync: data model\<close>

text \<open>
  A shallow embedding of \<^verbatim>\<open>SyncEngineService\<close>
  (\<^verbatim>\<open>src/modules/shared/sync/sync-engine/sync-engine.service.ts\<close>).

  The service is written with AngularJS promises. Scheduling is cooperative and
  single-threaded. A function of the embedding runs one promise chain to completion as
  a state transformer: it takes the engine's state and returns the outcome of the
  promise (\<open>Inl\<close> a rejection, \<open>Inr\<close> a fulfilment) with the new state. Chains
  whose callbacks interleave are run step by step, under a schedule.
  Every call of a collaborator (store writes, platform, providers, remote API, log,
  exception handler) and every settlement of a request's deferred is appended to a
  trace, in the order of the calls.

  Collaborators are parameters (\<open>Env\<close>): providers, the remote API and the platform's
  rebuild of the local data may fail; the store, the status indicator, the polling
  timer, the log and the exception handler are taken to succeed.
\<close>

text \<open>
  Modelled from the spec: the enumerations \<^verbatim>\<open>SyncType\<close>, \<^verbatim>\<open>MessageCommand\<close> and
  \<^verbatim>\<open>StoreKey\<close>, which the source imports. The spec gives the sync types
  ``Local, Remote, Cancel, ...'' and the store keys ``LastUpdated, SyncEnabled, Password,
  SyncVersion''; of the commands the engine reads \<^verbatim>\<open>RestoreBookmarks\<close> only. A
  stored value is a boolean or a string.
\<close>

datatype SyncType = Local | Remote | Cancel | OtherSyncType nat

datatype MessageCommand = RestoreBookmarks | OtherCommand nat

datatype StoreKey = LastUpdated | SyncEnabled | Password | SyncVersion

datatype StoreValue = VBool bool | VString string

text \<open>
  Modelled from the spec: the classes of \<^verbatim>\<open>exception.ts\<close>, which the source imports;
  they are the spec's error kinds, under the names the engine tests with
  \<^verbatim>\<open>instanceof\<close>. Each extends \<^verbatim>\<open>Exception\<close> directly and carries the error it
  wraps. \<open>NativeError\<close> is any JavaScript error that is not an \<^verbatim>\<open>Exception\<close> (a
  \<^verbatim>\<open>TypeError\<close>, say).
\<close>

datatype ExceptionClass =
    NetworkOfflineException
  | SyncUncommittedException
  | SyncFailedException
  | SyncRemovedException
  | MissingClientDataException
  | NoDataFoundException
  | TooManyRequestsException
  | BookmarkMappingNotFoundException
  | ContainerChangedException
  | DataOutOfSyncException
  | FailedCreateNativeBookmarksException
  | FailedGetNativeBookmarksException
  | FailedRemoveNativeBookmarksException
  | NativeBookmarkNotFoundException
  | BookmarkNotFoundException
  | SyncDisabledException
  | OtherException nat

datatype Error = Exception ExceptionClass "Error option" | NativeError string

datatype ChangeInfo = ChangeInfo (changeType: "string option")

text \<open>
  Modelled from the spec: the interfaces of \<^verbatim>\<open>sync.interface.ts\<close>, which the source
  imports: the spec's SyncRequest (\<^verbatim>\<open>Sync\<close>), ProviderResult
  (\<^verbatim>\<open>SyncProcessResult\<close>, with its optional \<^verbatim>\<open>updateRemote\<close>) and Provider
  (\<^verbatim>\<open>SyncProvider\<close>).

  \<open>Sync\<close> is a queued sync. \<^verbatim>\<open>queueSync\<close> is the only writer of the queue and
  gives every entry its \<^verbatim>\<open>uniqueId\<close> and its \<^verbatim>\<open>deferred\<close> (a handle: the number
  of the \<^verbatim>\<open>$q.defer()\<close> call that made it); \<open>SyncToQueue\<close> is a sync as the caller
  hands it in.
\<close>

record Sync =
  uniqueId :: string
  type :: SyncType
  command :: "MessageCommand option"
  changeInfo :: "ChangeInfo option"
  deferred :: nat

record SyncToQueue =
  new_uniqueId :: "string option"
  new_type :: SyncType
  new_command :: "MessageCommand option"
  new_changeInfo :: "ChangeInfo option"

record SyncProcessBookmarksData =
  encryptedBookmarks :: string

record SyncProcessResult =
  data :: SyncProcessBookmarksData
  updateRemote :: "bool option"

datatype ProviderClass = BookmarkSyncProviderService | OtherProviderClass nat

text \<open>
  A provider answers each call as a function of its arguments; \<open>None\<close> is a promise
  that resolves, \<open>Some e\<close> one that rejects with \<open>e\<close>.
\<close>

record SyncProvider =
  providerClass :: ProviderClass
  enable :: "Error option"
  disable :: "Error option"
  processSync :: "Sync \<Rightarrow> Error + SyncProcessResult"
  handleUpdateRemoteFailed ::
    "Error \<Rightarrow> SyncProcessBookmarksData option \<Rightarrow> Sync option \<Rightarrow> Error option"

record Env =
  providers :: "SyncProvider list"
  apiSvc_updateBookmarks :: "string \<Rightarrow> Error + string"
  platformSvc_refreshLocalSyncData :: "Error option"
  dateNow :: string
  utilitySvc_getUniqueishId :: "nat \<Rightarrow> string"

datatype LogMessage =
    ProcessingSync string bool nat
  | SyncQueued string SyncType
  | SyncEnabledMsg
  | SyncDisabledMsg
  | SyncFailedMsg string
  | ChangeInfoMsg ChangeInfo
  | RemoteUpdatedAt string
  | ProviderNotSpecified

datatype Event =
    AutomaticUpdatesStart
  | AutomaticUpdatesStop
  | InterfaceRefresh "StoreValue option" "SyncType option"
  | RefreshLocalSyncData
  | StoreSet StoreKey StoreValue
  | StoreRemove StoreKey
  | ProviderEnable nat
  | ProviderDisable nat
  | ProviderProcessSync nat Sync
  | ProviderHandleUpdateRemoteFailed nat Error
  | ApiUpdateBookmarks string
  | LogInfo LogMessage
  | LogWarning LogMessage
  | ExceptionHandler Error
  | DeferredResolve nat
  | DeferredReject nat Error

record EngineState =
  store :: "StoreKey \<rightharpoonup> StoreValue"
  currentSync :: "Sync option"
  syncQueue :: "Sync list"
  trace :: "Event list"
  deferredCount :: nat
  idCount :: nat

type_synonym 'a Promise = "(Error + 'a) \<times> EngineState"

section \<open>Collaborators\<close>

definition emit :: "Event \<Rightarrow> EngineState \<Rightarrow> EngineState" where
  "emit e s = s\<lparr>trace := trace s @ [e]\<rparr>"

definition emits :: "Event list \<Rightarrow> EngineState \<Rightarrow> EngineState" where
  "emits es s = s\<lparr>trace := trace s @ es\<rparr>"

text \<open>JavaScript truthiness of a stored value; a missing key reads as \<^verbatim>\<open>undefined\<close>.\<close>

fun truthy :: "StoreValue option \<Rightarrow> bool" where
  "truthy None = False"
| "truthy (Some (VBool b)) = b"
| "truthy (Some (VString v)) = (v \<noteq> [])"

definition syncEnabled :: "EngineState \<Rightarrow> bool" where
  "syncEnabled s = truthy (store s SyncEnabled)"

definition storeSvc_set :: "StoreKey \<Rightarrow> StoreValue \<Rightarrow> EngineState \<Rightarrow> EngineState" where
  "storeSvc_set k v s = emit (StoreSet k v) (s\<lparr>store := (store s)(k \<mapsto> v)\<rparr>)"

definition storeSvc_remove :: "StoreKey \<Rightarrow> EngineState \<Rightarrow> EngineState" where
  "storeSvc_remove k s = emit (StoreRemove k) (s\<lparr>store := (store s)(k := None)\<rparr>)"

text \<open>
  \<^verbatim>\<open>$q.all\<close> over calls that were all started: it rejects with the first rejection
  (here: in the order of the list), else resolves with all the results.
\<close>

fun q_all :: "(Error + 'a) list \<Rightarrow> Error + 'a list" where
  "q_all [] = Inr []"
| "q_all (Inl e # rs) = Inl e"
| "q_all (Inr v # rs) = (case q_all rs of Inl e \<Rightarrow> Inl e | Inr vs \<Rightarrow> Inr (v # vs))"

fun q_all_void :: "Error option list \<Rightarrow> Error option" where
  "q_all_void [] = None"
| "q_all_void (Some e # rs) = Some e"
| "q_all_void (None # rs) = q_all_void rs"

definition providerCalls :: "Env \<Rightarrow> (nat \<Rightarrow> Event) \<Rightarrow> Event list" where
  "providerCalls env ev = map ev [0..<length (providers env)]"

section \<open>The engine\<close>

fun instanceOf :: "Error \<Rightarrow> ExceptionClass \<Rightarrow> bool" where
  "instanceOf (Exception c inner) c' = (c = c')"
| "instanceOf (NativeError m) c' = False"

fun isException :: "Error \<Rightarrow> bool" where
  "isException (Exception c inner) = True"
| "isException (NativeError m) = False"

definition checkIfDisableSyncOnError :: "Error \<Rightarrow> bool" where
  "checkIfDisableSyncOnError err =
     (instanceOf err SyncRemovedException \<or>
      instanceOf err MissingClientDataException \<or>
      instanceOf err NoDataFoundException \<or>
      instanceOf err TooManyRequestsException)"

definition checkIfRefreshSyncedDataOnError :: "Error \<Rightarrow> bool" where
  "checkIfRefreshSyncedDataOnError err =
     (instanceOf err BookmarkMappingNotFoundException \<or>
      instanceOf err ContainerChangedException \<or>
      instanceOf err DataOutOfSyncException \<or>
      instanceOf err FailedCreateNativeBookmarksException \<or>
      instanceOf err FailedGetNativeBookmarksException \<or>
      instanceOf err FailedRemoveNativeBookmarksException \<or>
      instanceOf err NativeBookmarkNotFoundException \<or>
      instanceOf err BookmarkNotFoundException)"

definition setIsSyncing :: "SyncType option \<Rightarrow> EngineState \<Rightarrow> EngineState" where
  "setIsSyncing syncType s =
     (case syncType of
        Some t \<Rightarrow> emit (InterfaceRefresh None (Some t)) s
      | None \<Rightarrow> emit (InterfaceRefresh (store s SyncEnabled) None) s)"

text \<open>
  \<^verbatim>\<open>disableSync\<close>. Its last callback clears the queue and calls
  \<^verbatim>\<open>setIsSyncing()\<close> without waiting for it: the status refresh and the log entry
  that follow in the callback come first, and the refresh of \<^verbatim>\<open>setIsSyncing\<close>, which
  waits for the store, arrives after them.
\<close>

definition disableSync :: "Env \<Rightarrow> EngineState \<Rightarrow> unit Promise" where
  "disableSync env s =
     (if \<not> syncEnabled s then (Inr (), s)
      else
        let s1 = storeSvc_set SyncEnabled (VBool False)
                   (storeSvc_remove SyncVersion
                     (storeSvc_remove Password (emit AutomaticUpdatesStop s)));
            s2 = emits (providerCalls env ProviderDisable) s1
        in case q_all_void (map disable (providers env)) of
             Some e \<Rightarrow> (Inl e, s2)
           | None \<Rightarrow>
               (Inr (),
                setIsSyncing None
                  (emit (LogInfo SyncDisabledMsg)
                    (emit (InterfaceRefresh None None) (s2\<lparr>syncQueue := []\<rparr>)))))"

definition enableSync :: "Env \<Rightarrow> EngineState \<Rightarrow> unit Promise" where
  "enableSync env s =
     (let s1 = emit AutomaticUpdatesStart (storeSvc_set SyncEnabled (VBool True) s);
          s2 = emits (providerCalls env ProviderEnable) s1
      in case q_all_void (map enable (providers env)) of
           Some e \<Rightarrow> (Inl e, s2)
         | None \<Rightarrow> (Inr (), s2))"

definition getCurrentSync :: "EngineState \<Rightarrow> Sync option" where
  "getCurrentSync s = (if syncQueue s = [] then currentSync s else Some (last (syncQueue s)))"

definition getSyncQueueLength :: "EngineState \<Rightarrow> nat" where
  "getSyncQueueLength s = length (syncQueue s)"

definition sync_handleCancel :: "Env \<Rightarrow> EngineState \<Rightarrow> unit Promise" where
  "sync_handleCancel env s = disableSync env s"

subsection \<open>Failure handling\<close>

text \<open>
  The recovery step of \<^verbatim>\<open>handleFailedSync\<close> (its first inner \<^verbatim>\<open>then\<close> callback):
  it returns the value of the variable \<^verbatim>\<open>err\<close> after the step.
\<close>

definition handleFailedSync_recover ::
    "Env \<Rightarrow> Sync \<Rightarrow> bool \<Rightarrow> Error \<Rightarrow> EngineState \<Rightarrow> Error \<times> EngineState" where
  "handleFailedSync_recover env failedSync enabled err s =
     (if \<not> enabled then (err, s)
      else if instanceOf err NoDataFoundException
      then (Exception SyncRemovedException (Some err), s)
      else if type failedSync \<noteq> Local
      then
        let s1 = storeSvc_set LastUpdated (VString (dateNow env)) (s\<lparr>syncQueue := []\<rparr>)
        in if checkIfRefreshSyncedDataOnError err
           then
             let s2 = emit RefreshLocalSyncData (s1\<lparr>currentSync := None\<rparr>)
             in case platformSvc_refreshLocalSyncData env of
                  Some refreshErr \<Rightarrow> (refreshErr, s2)
                | None \<Rightarrow> (err, s2)
           else (err, s1)
      else (err, s))"

definition logChangeInfo :: "Sync \<Rightarrow> EngineState \<Rightarrow> EngineState" where
  "logChangeInfo failedSync s =
     (case changeInfo failedSync of
        None \<Rightarrow> s
      | Some ci \<Rightarrow>
          (case changeType ci of
             None \<Rightarrow> s
           | Some t \<Rightarrow> if t = [] then s else emit (LogInfo (ChangeInfoMsg ci)) s))"

text \<open>
  \<^verbatim>\<open>handleFailedSync\<close> resolves with the error the drain rethrows. Its
  \<^verbatim>\<open>finally\<close> callback rejects the failed sync's deferred with the variable
  \<^verbatim>\<open>err\<close>, which the offline branch does not assign.
\<close>

definition handleFailedSync :: "Env \<Rightarrow> Sync \<Rightarrow> Error \<Rightarrow> EngineState \<Rightarrow> Error Promise" where
  "handleFailedSync env failedSync err s0 =
     (let s = emit (InterfaceRefresh None None) s0
      in if instanceOf err NetworkOfflineException \<and> type failedSync \<noteq> Local
         then (Inr (Exception SyncUncommittedException (Some err)),
               emit (DeferredReject (deferred failedSync) err) s)
         else
           let err1 = (if isException err then err
                       else Exception SyncFailedException (Some err));
               s1 = logChangeInfo failedSync
                      (emit (ExceptionHandler err1)
                        (emit (LogWarning (SyncFailedMsg (uniqueId failedSync))) s));
               enabled = syncEnabled s1;
               s2 = setIsSyncing None s1;
               (err2, s3) = handleFailedSync_recover env failedSync enabled err1 s2;
               (r, s4) = (if checkIfDisableSyncOnError err2 then disableSync env s3
                          else (Inr (), s3))
           in ((case r of Inl e \<Rightarrow> Inl e | Inr u \<Rightarrow> Inr err2),
               emit (DeferredReject (deferred failedSync) err2) s4))"

subsection \<open>The drain\<close>

text \<open>The variables that \<^verbatim>\<open>processSyncQueue\<close> declares and its callbacks assign.\<close>

record DrainLocals =
  processedBookmarksData :: "SyncProcessBookmarksData option"
  updateRemoteVar :: bool

definition extractResult ::
    "SyncProvider \<times> SyncProcessResult \<Rightarrow>
     SyncProcessBookmarksData option \<times> EngineState \<Rightarrow>
     SyncProcessBookmarksData option \<times> EngineState" where
  "extractResult pr acc =
     (case providerClass (fst pr) of
        BookmarkSyncProviderService \<Rightarrow> (Some (data (snd pr)), snd acc)
      | OtherProviderClass n \<Rightarrow> (fst acc, emit (LogWarning ProviderNotSpecified) (snd acc)))"

text \<open>The \<^verbatim>\<open>reduce\<close> over the providers' results, from \<^verbatim>\<open>true\<close>.\<close>

definition combineResults :: "SyncProcessResult list \<Rightarrow> bool" where
  "combineResults processSyncResults =
     fold (\<lambda>current prev. case updateRemote current of None \<Rightarrow> prev | Some b \<Rightarrow> prev \<and> b)
       processSyncResults True"

text \<open>First callback of \<^verbatim>\<open>action\<close>: the cancel, or the fan-out to the providers.\<close>

definition action_process ::
    "Env \<Rightarrow> Sync \<Rightarrow> DrainLocals \<Rightarrow> EngineState \<Rightarrow> (Error + bool) \<times> DrainLocals \<times> EngineState" where
  "action_process env cur l s =
     (if type cur = Cancel
      then (case sync_handleCancel env s of
              (Inl e, s') \<Rightarrow> (Inl e, l, s')
            | (Inr u, s') \<Rightarrow> (Inr False, l, s'))
      else
        let s1 = emits (providerCalls env (\<lambda>i. ProviderProcessSync i cur)) s
        in case q_all (map (\<lambda>provider. processSync provider cur) (providers env)) of
             Inl e \<Rightarrow> (Inl e, l, s1)
           | Inr processSyncResults \<Rightarrow>
               let (pbd, s2) = fold extractResult (zip (providers env) processSyncResults)
                                 (processedBookmarksData l, s1)
               in (Inr (combineResults processSyncResults),
                   l\<lparr>processedBookmarksData := pbd\<rparr>, s2))"

text \<open>
  Second callback of \<^verbatim>\<open>action\<close>: enable sync if it is off, resolve the sync's
  deferred, set the flag \<^verbatim>\<open>updateRemote\<close>.
\<close>

definition action_complete ::
    "Env \<Rightarrow> Sync \<Rightarrow> bool \<Rightarrow> DrainLocals \<Rightarrow> EngineState \<Rightarrow> (Error + unit) \<times> DrainLocals \<times> EngineState" where
  "action_complete env cur syncChange l s =
     (case (if \<not> syncEnabled s \<and> command cur \<noteq> Some RestoreBookmarks \<and> type cur \<noteq> Cancel
            then (case enableSync env s of
                    (Inl e, s') \<Rightarrow> (Inl e, s')
                  | (Inr u, s') \<Rightarrow> (Inr (), emit (LogInfo SyncEnabledMsg) s'))
            else (Inr (), s)) of
        (Inl e, s1) \<Rightarrow> (Inl e, l, s1)
      | (Inr u, s1) \<Rightarrow>
          (Inr (),
           l\<lparr>updateRemoteVar :=
               (if \<not> syncChange then False
                else if type cur \<noteq> Local then True
                else updateRemoteVar l)\<rparr>,
           setIsSyncing None (emit (DeferredResolve (deferred cur)) s1)))"

text \<open>
  \<^verbatim>\<open>action\<close>: shift the head of the queue into \<^verbatim>\<open>currentSync\<close> and process it.
  The callbacks read \<^verbatim>\<open>this.currentSync\<close>; nothing in a run of \<^verbatim>\<open>action\<close>
  assigns it after the shift, so they are given the sync \<open>cur\<close> itself. On an empty
  queue \<^verbatim>\<open>shift\<close> gives \<^verbatim>\<open>undefined\<close> and reading its \<^verbatim>\<open>uniqueId\<close> throws.
\<close>

definition action ::
    "Env \<Rightarrow> bool \<Rightarrow> DrainLocals \<Rightarrow> EngineState \<Rightarrow> (Error + unit) \<times> DrainLocals \<times> EngineState" where
  "action env isBackgroundSync l s =
     (case syncQueue s of
        [] \<Rightarrow> (Inl (NativeError ''TypeError''), l, s\<lparr>currentSync := None\<rparr>)
      | cur # rest \<Rightarrow>
          let s1 = s\<lparr>currentSync := Some cur, syncQueue := rest\<rparr>;
              s2 = emit (LogInfo (ProcessingSync (uniqueId cur) isBackgroundSync (length rest))) s1;
              s3 = setIsSyncing (Some (type cur)) s2
          in case action_process env cur l s3 of
               (Inl e, l', s4) \<Rightarrow> (Inl e, l', s4)
             | (Inr syncChange, l', s4) \<Rightarrow> action_complete env cur syncChange l' s4)"

text \<open>
  Every run of \<^verbatim>\<open>action\<close> on a queue that is not empty leaves a shorter queue:
  the loop below ends.
\<close>

lemma emit_fields [simp]:
  "store (emit e s) = store s"
  "currentSync (emit e s) = currentSync s"
  "syncQueue (emit e s) = syncQueue s"
  "trace (emit e s) = trace s @ [e]"
  "deferredCount (emit e s) = deferredCount s"
  "idCount (emit e s) = idCount s"
  by (simp_all add: emit_def)

lemma emits_fields [simp]:
  "store (emits es s) = store s"
  "currentSync (emits es s) = currentSync s"
  "syncQueue (emits es s) = syncQueue s"
  "trace (emits es s) = trace s @ es"
  "deferredCount (emits es s) = deferredCount s"
  "idCount (emits es s) = idCount s"
  by (simp_all add: emits_def)

lemma storeSvc_set_fields [simp]:
  "store (storeSvc_set k v s) = (store s)(k \<mapsto> v)"
  "currentSync (storeSvc_set k v s) = currentSync s"
  "syncQueue (storeSvc_set k v s) = syncQueue s"
  "trace (storeSvc_set k v s) = trace s @ [StoreSet k v]"
  "deferredCount (storeSvc_set k v s) = deferredCount s"
  "idCount (storeSvc_set k v s) = idCount s"
  by (simp_all add: storeSvc_set_def)

lemma storeSvc_remove_fields [simp]:
  "store (storeSvc_remove k s) = (store s)(k := None)"
  "currentSync (storeSvc_remove k s) = currentSync s"
  "syncQueue (storeSvc_remove k s) = syncQueue s"
  "trace (storeSvc_remove k s) = trace s @ [StoreRemove k]"
  "deferredCount (storeSvc_remove k s) = deferredCount s"
  "idCount (storeSvc_remove k s) = idCount s"
  by (simp_all add: storeSvc_remove_def)

lemma setIsSyncing_fields [simp]:
  "store (setIsSyncing t s) = store s"
  "currentSync (setIsSyncing t s) = currentSync s"
  "syncQueue (setIsSyncing t s) = syncQueue s"
  "deferredCount (setIsSyncing t s) = deferredCount s"
  "idCount (setIsSyncing t s) = idCount s"
  by (simp_all add: setIsSyncing_def split: option.splits)

lemma syncEnabled_emit [simp]:
  "syncEnabled (emit e s) = syncEnabled s"
  "syncEnabled (emits es s) = syncEnabled s"
  "syncEnabled (setIsSyncing t s) = syncEnabled s"
  by (simp_all add: syncEnabled_def)

lemma disableSync_queue_le:
  "length (syncQueue (snd (disableSync env s))) \<le> length (syncQueue s)"
  by (simp add: disableSync_def Let_def split: option.splits)

lemma enableSync_queue [simp]:
  "syncQueue (snd (enableSync env s)) = syncQueue s"
  by (simp add: enableSync_def Let_def split: option.splits)

lemma fold_extractResult_queue [simp]:
  "syncQueue (snd (fold extractResult prs acc)) = syncQueue (snd acc)"
  by (induction prs arbitrary: acc)
     (simp_all add: extractResult_def split: ProviderClass.splits)

lemma action_process_queue_le:
  "length (syncQueue (snd (snd (action_process env cur l s)))) \<le> length (syncQueue s)"
proof (cases "type cur = Cancel")
  case True
  have "length (syncQueue (snd (disableSync env s))) \<le> length (syncQueue s)"
    by (rule disableSync_queue_le)
  with True show ?thesis
    by (cases "disableSync env s")
       (auto simp: action_process_def sync_handleCancel_def split: sum.splits)
next
  case False
  then show ?thesis
    by (simp add: action_process_def Let_def split_beta split: sum.splits)
qed

lemma action_complete_queue [simp]:
  "syncQueue (snd (snd (action_complete env cur syncChange l s))) = syncQueue s"
proof -
  have "syncQueue (snd (enableSync env s)) = syncQueue s" by simp
  then show ?thesis
    by (cases "enableSync env s")
       (auto simp: action_complete_def split: sum.splits)
qed

lemma action_queue_less:
  assumes "syncQueue s \<noteq> []"
  shows "length (syncQueue (snd (snd (action env isBackgroundSync l s)))) < length (syncQueue s)"
proof -
  from assms obtain cur rest where q: "syncQueue s = cur # rest"
    by (cases "syncQueue s") auto
  define s3 where "s3 = setIsSyncing (Some (type cur))
      (emit (LogInfo (ProcessingSync (uniqueId cur) isBackgroundSync (length rest)))
        (s\<lparr>currentSync := Some cur, syncQueue := rest\<rparr>))"
  have s3q: "syncQueue s3 = rest" by (simp add: s3_def)
  have le: "length (syncQueue (snd (snd (action_process env cur l s3)))) \<le> length rest"
    using action_process_queue_le [of env cur l s3] s3q by simp
  obtain r l' s4 where ap: "action_process env cur l s3 = (r, l', s4)"
    by (cases "action_process env cur l s3") auto
  have "length (syncQueue (snd (snd (action env isBackgroundSync l s)))) \<le> length rest"
    using le ap q
    by (cases r) (simp_all add: action_def Let_def s3_def [symmetric])
  with q show ?thesis by simp
qed

text \<open>
  Modelled from the spec: \<^verbatim>\<open>utilitySvc.promiseWhile\<close>, which is not in the
  source file. The spec's drain: ``while the queue is non-empty: dequeue the head ...'';
  the loop tests \<^verbatim>\<open>doActionUntil\<close> (is the queue empty?) before every run of
  \<^verbatim>\<open>action\<close> and stops at the first rejection.
\<close>

function promiseWhile ::
    "Env \<Rightarrow> bool \<Rightarrow> DrainLocals \<Rightarrow> EngineState \<Rightarrow> (Error + unit) \<times> DrainLocals \<times> EngineState" where
  "promiseWhile env isBackgroundSync l s =
     (if syncQueue s = [] then (Inr (), l, s)
      else case action env isBackgroundSync l s of
             (Inl e, l', s') \<Rightarrow> (Inl e, l', s')
           | (Inr u, l', s') \<Rightarrow> promiseWhile env isBackgroundSync l' s')"
  by pat_completeness auto
termination
  apply (relation "measure (\<lambda>(env, isBackgroundSync, l, s). length (syncQueue s))")
   apply simp
  apply clarsimp
  apply (metis action_queue_less snd_conv)
  done

declare promiseWhile.simps [simp del]

text \<open>
  The callback that follows the loop: update the remote bookmarks when the flag
  \<^verbatim>\<open>updateRemote\<close> is set. Reading \<^verbatim>\<open>encryptedBookmarks\<close> of an undefined
  \<^verbatim>\<open>processedBookmarksData\<close> throws before the API is called. When the API
  rejects, every provider's \<^verbatim>\<open>handleUpdateRemoteFailed\<close> is called and the API's
  error is rethrown.
\<close>

definition lastResult ::
    "SyncProvider \<Rightarrow> SyncProcessBookmarksData option \<Rightarrow> SyncProcessBookmarksData option" where
  "lastResult provider pbd =
     (case providerClass provider of
        BookmarkSyncProviderService \<Rightarrow> pbd
      | OtherProviderClass n \<Rightarrow> None)"

definition updateRemoteBookmarks :: "Env \<Rightarrow> DrainLocals \<Rightarrow> EngineState \<Rightarrow> unit Promise" where
  "updateRemoteBookmarks env l s =
     (if \<not> updateRemoteVar l then (Inr (), s)
      else case processedBookmarksData l of
             None \<Rightarrow> (Inl (NativeError ''TypeError''), s)
           | Some d \<Rightarrow>
               let s1 = emit (ApiUpdateBookmarks (encryptedBookmarks d)) s
               in case apiSvc_updateBookmarks env (encryptedBookmarks d) of
                    Inr lastUpdated \<Rightarrow>
                      (Inr (),
                       emit (LogInfo (RemoteUpdatedAt lastUpdated))
                         (storeSvc_set LastUpdated (VString lastUpdated) s1))
                  | Inl err \<Rightarrow>
                      let s2 = emits (providerCalls env
                                 (\<lambda>i. ProviderHandleUpdateRemoteFailed i err)) s1
                      in case q_all_void
                             (map (\<lambda>provider. handleUpdateRemoteFailed provider err
                                     (lastResult provider (processedBookmarksData l))
                                     (currentSync s))
                               (providers env)) of
                           Some e \<Rightarrow> (Inl e, s2)
                         | None \<Rightarrow> (Inl err, s2))"

text \<open>
  The \<^verbatim>\<open>catch\<close> of the drain: \<^verbatim>\<open>handleFailedSync(this.currentSync, err)\<close>,
  whose result is rethrown. With no current sync the handler's reads of the failed
  sync throw.
\<close>

definition catchFailedSync :: "Error \<Rightarrow> Env \<Rightarrow> EngineState \<Rightarrow> unit Promise" where
  "catchFailedSync err env s =
     (case currentSync s of
        None \<Rightarrow> (Inl (NativeError ''TypeError''), emit (InterfaceRefresh None None) s)
      | Some failedSync \<Rightarrow>
          (case handleFailedSync env failedSync err s of
             (Inl e, s') \<Rightarrow> (Inl e, s')
           | (Inr innerErr, s') \<Rightarrow> (Inl innerErr, s')))"

text \<open>The \<^verbatim>\<open>finally\<close> of the drain.\<close>

definition finallyClearCurrentSync :: "EngineState \<Rightarrow> EngineState" where
  "finallyClearCurrentSync s =
     (let s1 = s\<lparr>currentSync := None\<rparr>
      in if syncEnabled s1 then emit AutomaticUpdatesStart s1 else s1)"

definition processSyncQueue :: "Env \<Rightarrow> bool \<Rightarrow> EngineState \<Rightarrow> unit Promise" where
  "processSyncQueue env isBackgroundSync s =
     (if currentSync s \<noteq> None \<or> syncQueue s = [] then (Inr (), s)
      else
        let s1 = (if syncEnabled s then emit AutomaticUpdatesStop s else s);
            (r, l, s2) = promiseWhile env isBackgroundSync
                           \<lparr>processedBookmarksData = None, updateRemoteVar = False\<rparr> s1;
            (r', s3) = (case r of
                          Inl e \<Rightarrow> (Inl e, s2)
                        | Inr u \<Rightarrow> updateRemoteBookmarks env l s2);
            (r'', s4) = (case r' of
                           Inl err \<Rightarrow> catchFailedSync err env s3
                         | Inr u \<Rightarrow> (Inr (), s3))
        in (r'', finallyClearCurrentSync s4))"

subsection \<open>Queueing\<close>

text \<open>
  \<^verbatim>\<open>$q\<close> settles a deferred once: the first call of \<^verbatim>\<open>resolve\<close> or
  \<^verbatim>\<open>reject\<close> decides, later calls are ignored.
\<close>

datatype PromiseState = Pending | Resolved | Rejected Error

fun deferredState :: "Event list \<Rightarrow> nat \<Rightarrow> PromiseState" where
  "deferredState [] d = Pending"
| "deferredState (DeferredResolve d' # es) d =
     (if d' = d then Resolved else deferredState es d)"
| "deferredState (DeferredReject d' err # es) d =
     (if d' = d then Rejected err else deferredState es d)"
| "deferredState (e # es) d = deferredState es d"

text \<open>
  \<^verbatim>\<open>queueSync\<close>. A cancel clears the queue first; the sync gets a new deferred
  and, if it has none (or an empty one), a new \<^verbatim>\<open>uniqueId\<close>, and is pushed.
  \<open>queueSync_push\<close> is this part, and returns the handle of the deferred.
\<close>

definition queueSync_push :: "Env \<Rightarrow> SyncToQueue \<Rightarrow> EngineState \<Rightarrow> nat \<times> EngineState" where
  "queueSync_push env new s =
     (let s1 = (if new_type new = Cancel then s\<lparr>syncQueue := []\<rparr> else s);
          d = deferredCount s1;
          s2 = s1\<lparr>deferredCount := Suc d\<rparr>;
          generate = (case new_uniqueId new of None \<Rightarrow> True | Some u \<Rightarrow> u = []);
          uid = (if generate then utilitySvc_getUniqueishId env (idCount s2)
                 else the (new_uniqueId new));
          s3 = (if generate then s2\<lparr>idCount := Suc (idCount s2)\<rparr> else s2);
          queued = \<lparr>uniqueId = uid, type = new_type new, command = new_command new,
                    changeInfo = new_changeInfo new, deferred = d\<rparr>
      in (d, emit (LogInfo (SyncQueued uid (new_type new)))
               (s3\<lparr>syncQueue := syncQueue s3 @ [queued]\<rparr>)))"

text \<open>
  The drain that \<^verbatim>\<open>queueSync\<close> starts through \<^verbatim>\<open>$timeout\<close> runs here right
  after the sync is queued. The promise returned waits for the sync's deferred and,
  with \<^verbatim>\<open>runSync\<close>, for the drain; without a sync to queue, reading
  \<^verbatim>\<open>queuedSync.promise\<close> throws.
\<close>

definition queueSync ::
    "Env \<Rightarrow> SyncToQueue option \<Rightarrow> bool \<Rightarrow> EngineState \<Rightarrow> PromiseState \<times> EngineState" where
  "queueSync env syncToQueue runSync s =
     (let s1 = (if \<not> syncEnabled s then s\<lparr>syncQueue := []\<rparr> else s)
      in case syncToQueue of
           None \<Rightarrow> (Rejected (NativeError ''TypeError''), s1)
         | Some new \<Rightarrow>
             let (d, s2) = queueSync_push env new s1;
                 (r, s3) = (if runSync then processSyncQueue env False s2 else (Inr (), s2))
             in ((case deferredState (trace s3) d of
                    Rejected e \<Rightarrow> Rejected e
                  | Resolved \<Rightarrow> (case r of Inl e \<Rightarrow> Rejected e | Inr u \<Rightarrow> Resolved)
                  | Pending \<Rightarrow> (case r of Inl e \<Rightarrow> Rejected e | Inr u \<Rightarrow> Pending)),
                 s3))"

subsection \<open>Calls that overlap\<close>

text \<open>
  The operations of the engine are chains of promise callbacks. A callback runs to its
  end; where a chain waits for a collaborator (the store, the platform, a provider, the
  remote API) or for \<^verbatim>\<open>$timeout\<close>, a callback of another chain can run first. The
  points at which a chain can wait:
  \<^item> \<open>QueueSyncCalled\<close>: \<^verbatim>\<open>queueSync\<close> was called and waits for its read of
    \<^verbatim>\<open>SyncEnabled\<close>;
  \<^item> \<open>DrainCalled\<close>: \<^verbatim>\<open>$timeout\<close> (or a caller) is about to call
    \<^verbatim>\<open>processSyncQueue\<close>, whose guard has not run;
  \<^item> \<open>DrainStarted\<close>: the guard let the drain go on, which waits for its read of
    \<^verbatim>\<open>SyncEnabled\<close>;
  \<^item> \<open>DrainLoop\<close>: the loop is about to test the queue;
  \<^item> \<open>ActionShifted\<close>: \<^verbatim>\<open>action\<close> has shifted a sync into \<^verbatim>\<open>currentSync\<close>
    and waits for \<^verbatim>\<open>setIsSyncing\<close>;
  \<^item> \<open>ActionProcessed\<close>: the first callback of \<^verbatim>\<open>action\<close> has given
    \<^verbatim>\<open>syncChange\<close>, the second waits for its read of \<^verbatim>\<open>SyncEnabled\<close>;
  \<^item> \<open>DrainCommit\<close>, \<open>DrainFailed\<close>, \<open>DrainFinally\<close>: the callback after the loop,
    the \<^verbatim>\<open>catch\<close> and the \<^verbatim>\<open>finally\<close> of the drain are next;
  \<^item> \<open>Finished\<close>: the chain has settled.

  The variables \<^verbatim>\<open>processedBookmarksData\<close> and \<^verbatim>\<open>updateRemote\<close> belong to one call
  of \<^verbatim>\<open>processSyncQueue\<close> and travel with its chain; \<^verbatim>\<open>currentSync\<close> and the queue
  are fields of the service, shared by all chains.
\<close>

datatype Chain =
    QueueSyncCalled "SyncToQueue option" bool
  | DrainCalled bool
  | DrainStarted bool
  | DrainLoop bool DrainLocals
  | ActionShifted bool DrainLocals
  | ActionProcessed bool DrainLocals bool
  | DrainCommit DrainLocals
  | DrainFailed Error
  | DrainFinally "Error + unit"
  | Finished "Error + unit"

text \<open>
  One step of a chain: the callbacks that run up to the next wait. The callbacks of
  \<^verbatim>\<open>action\<close> read \<^verbatim>\<open>this.currentSync\<close> when they run, so each step reads the field
  from the state it is given; reading \<^verbatim>\<open>type\<close> or \<^verbatim>\<open>deferred\<close> of \<^verbatim>\<open>null\<close>
  throws. The promise that \<^verbatim>\<open>queueSync\<close> returns is not followed: the chain of a call
  with \<^verbatim>\<open>runSync\<close> goes on as the drain that \<^verbatim>\<open>$timeout\<close> starts.
\<close>

fun step :: "Env \<Rightarrow> Chain \<Rightarrow> EngineState \<Rightarrow> Chain \<times> EngineState" where
  "step env (QueueSyncCalled syncToQueue runSync) s =
     (let s1 = (if \<not> syncEnabled s then s\<lparr>syncQueue := []\<rparr> else s)
      in case syncToQueue of
           None \<Rightarrow> (Finished (Inl (NativeError ''TypeError'')), s1)
         | Some new \<Rightarrow>
             let (d, s2) = queueSync_push env new s1
             in (if runSync then DrainCalled False else Finished (Inr ()), s2))"
| "step env (DrainCalled isBackgroundSync) s =
     (if currentSync s \<noteq> None \<or> syncQueue s = [] then (Finished (Inr ()), s)
      else (DrainStarted isBackgroundSync, s))"
| "step env (DrainStarted isBackgroundSync) s =
     (DrainLoop isBackgroundSync \<lparr>processedBookmarksData = None, updateRemoteVar = False\<rparr>,
      if syncEnabled s then emit AutomaticUpdatesStop s else s)"
| "step env (DrainLoop isBackgroundSync l) s =
     (case syncQueue s of
        [] \<Rightarrow> (DrainCommit l, s)
      | cur # rest \<Rightarrow>
          let s1 = s\<lparr>currentSync := Some cur, syncQueue := rest\<rparr>;
              s2 = emit (LogInfo (ProcessingSync (uniqueId cur) isBackgroundSync (length rest))) s1;
              s3 = setIsSyncing (Some (type cur)) s2
          in (ActionShifted isBackgroundSync l, s3))"
| "step env (ActionShifted isBackgroundSync l) s =
     (case currentSync s of
        None \<Rightarrow> (DrainFailed (NativeError ''TypeError''), s)
      | Some cur \<Rightarrow>
          (case action_process env cur l s of
             (Inl e, l', s') \<Rightarrow> (DrainFailed e, s')
           | (Inr syncChange, l', s') \<Rightarrow> (ActionProcessed isBackgroundSync l' syncChange, s')))"
| "step env (ActionProcessed isBackgroundSync l syncChange) s =
     (case currentSync s of
        None \<Rightarrow> (DrainFailed (NativeError ''TypeError''), s)
      | Some cur \<Rightarrow>
          (case action_complete env cur syncChange l s of
             (Inl e, l', s') \<Rightarrow> (DrainFailed e, s')
           | (Inr u, l', s') \<Rightarrow> (DrainLoop isBackgroundSync l', s')))"
| "step env (DrainCommit l) s =
     (case updateRemoteBookmarks env l s of
        (Inl e, s') \<Rightarrow> (DrainFailed e, s')
      | (Inr u, s') \<Rightarrow> (DrainFinally (Inr ()), s'))"
| "step env (DrainFailed err) s =
     (case catchFailedSync err env s of (r, s') \<Rightarrow> (DrainFinally r, s'))"
| "step env (DrainFinally r) s = (Finished r, finallyClearCurrentSync s)"
| "step env (Finished r) s = (Finished r, s)"

text \<open>
  A schedule names, step by step, the chain whose callbacks run next; a number that
  names no chain is skipped.
\<close>

fun runSchedule :: "Env \<Rightarrow> nat list \<Rightarrow> Chain list \<times> EngineState \<Rightarrow> Chain list \<times> EngineState" where
  "runSchedule env [] c = c"
| "runSchedule env (i # schedule) (cs, s) =
     (if i < length cs
      then let (c, s') = step env (cs ! i) s
           in runSchedule env schedule (cs[i := c], s')
      else runSchedule env schedule (cs, s))"

text \<open>
  \<^verbatim>\<open>checkForUpdates\<close> and \<^verbatim>\<open>executeSync\<close> compare dates read from the store
  and the remote API before they queue and drain; no property below concerns them.
\<close>

section \<open>Concrete inputs\<close>

text \<open>
  One bookmark provider that always asks for the remote update, a remote API that
  accepts it, and requests of each type; the witnesses below run the engine on them.
  In \<open>example_failing_env\<close> the provider rejects every sync, in
  \<open>example_api_failing_env\<close> the remote API rejects the update.
\<close>

definition example_data :: SyncProcessBookmarksData where
  "example_data = \<lparr>encryptedBookmarks = ''enc''\<rparr>"

definition example_provider :: SyncProvider where
  "example_provider =
     \<lparr>providerClass = BookmarkSyncProviderService, enable = None, disable = None,
      processSync = (\<lambda>sync. Inr \<lparr>data = example_data, updateRemote = Some True\<rparr>),
      handleUpdateRemoteFailed = (\<lambda>err lastData sync. None)\<rparr>"

definition example_env :: Env where
  "example_env =
     \<lparr>providers = [example_provider], apiSvc_updateBookmarks = (\<lambda>bookmarks. Inr ''t1''),
      platformSvc_refreshLocalSyncData = None, dateNow = ''t0'',
      utilitySvc_getUniqueishId = (\<lambda>n. ''id'')\<rparr>"

definition example_sync :: "SyncType \<Rightarrow> nat \<Rightarrow> Sync" where
  "example_sync t d =
     \<lparr>uniqueId = ''id'', type = t, command = None, changeInfo = None, deferred = d\<rparr>"

definition example_state :: "bool \<Rightarrow> Sync list \<Rightarrow> EngineState" where
  "example_state enabled queue =
     \<lparr>store = [SyncEnabled \<mapsto> VBool enabled], currentSync = None, syncQueue = queue,
      trace = [], deferredCount = length queue, idCount = 0\<rparr>"


definition example_failing_env :: Env where
  "example_failing_env =
     example_env\<lparr>providers :=
       [example_provider\<lparr>processSync := (\<lambda>sync. Inl (NativeError ''boom''))\<rparr>]\<rparr>"

definition example_api_failing_env :: Env where
  "example_api_failing_env =
     example_env\<lparr>apiSvc_updateBookmarks := (\<lambda>bookmarks. Inl (NativeError ''boom''))\<rparr>"

definition example_api_no_data_env :: Env where
  "example_api_no_data_env =
     example_env\<lparr>apiSvc_updateBookmarks :=
       (\<lambda>bookmarks. Inl (Exception NoDataFoundException None))\<rparr>"

definition example_throttled_env :: Env where
  "example_throttled_env =
     example_env\<lparr>providers :=
       [example_provider\<lparr>disable := Some (NativeError ''boom''),
          processSync := (\<lambda>sync. Inl (Exception TooManyRequestsException None))\<rparr>]\<rparr>"

definition example_disable_failing_env :: Env where
  "example_disable_failing_env =
     example_env\<lparr>providers :=
       [example_provider\<lparr>disable := Some (NativeError ''boom'')\<rparr>]\<rparr>"

definition example_cancel :: SyncToQueue where
  "example_cancel =
     \<lparr>new_uniqueId = None, new_type = Cancel, new_command = None, new_changeInfo = None\<rparr>"

text \<open>
  Two calls of \<^verbatim>\<open>queueSync\<close>, each with a remote sync and \<^verbatim>\<open>runSync\<close>, made on
  an idle engine with sync enabled and an empty queue.
\<close>

definition example_request :: SyncToQueue where
  "example_request =
     \<lparr>new_uniqueId = None, new_type = Remote, new_command = None, new_changeInfo = None\<rparr>"

definition example_calls :: "Chain list \<times> EngineState" where
  "example_calls =
     ([QueueSyncCalled (Some example_request) True, QueueSyncCalled (Some example_request) True],
      example_state True [])"

section \<open>Observations on traces\<close>

text \<open>
  The events that settle a deferred, those that settle the deferred with a given handle,
  and the calls of the remote API's update. \<open>observed\<close> keeps these events of a
  state's trace.
\<close>

fun isSettlement :: "Event \<Rightarrow> bool" where
  "isSettlement (DeferredResolve d) = True"
| "isSettlement (DeferredReject d err) = True"
| "isSettlement e = False"


fun isCommit :: "Event \<Rightarrow> bool" where
  "isCommit (ApiUpdateBookmarks b) = True"
| "isCommit e = False"

fun isProcessSync :: "Event \<Rightarrow> bool" where
  "isProcessSync (ProviderProcessSync i sync) = True"
| "isProcessSync e = False"

definition notable :: "Event \<Rightarrow> bool" where
  "notable e = (isSettlement e \<or> isCommit e)"

definition observed :: "EngineState \<Rightarrow> Event list" where
  "observed s = filter notable (trace s)"

text \<open>
  The providers' verdict on a sync, as the drain computes it, and whether every
  provider's \<^verbatim>\<open>processSync\<close> resolves for it.
\<close>

definition aggregatedVerdict :: "Env \<Rightarrow> Sync \<Rightarrow> bool" where
  "aggregatedVerdict env sync =
     (case q_all (map (\<lambda>provider. processSync provider sync) (providers env)) of
        Inl e \<Rightarrow> False
      | Inr processSyncResults \<Rightarrow> combineResults processSyncResults)"

definition providersSucceed :: "Env \<Rightarrow> Sync \<Rightarrow> bool" where
  "providersSucceed env sync =
     (case q_all (map (\<lambda>provider. processSync provider sync) (providers env)) of
        Inl e \<Rightarrow> False
      | Inr processSyncResults \<Rightarrow> True)"

text \<open>
  A summary of the loop for the statement of the decision to update, not a part of the
  engine: the requests that the loop of a drain processes, in order, given the queue and
  the value of \<^verbatim>\<open>SyncEnabled\<close> when the loop starts; \<open>None\<close> when the loop fails (a
  provider's \<^verbatim>\<open>processSync\<close>, \<^verbatim>\<open>enable\<close> or \<^verbatim>\<open>disable\<close> rejects). A cancel met
  while sync is enabled disables sync and ends the loop; met while sync is disabled it
  leaves the queue as it is and the loop goes on. A request that the providers process
  enables sync when it was off, unless its command is \<^verbatim>\<open>RestoreBookmarks\<close>. That the
  loop does this is lemma \<open>promiseWhile_decision\<close>.
\<close>

fun processedRequests :: "Env \<Rightarrow> bool \<Rightarrow> Sync list \<Rightarrow> Sync list option" where
  "processedRequests env enabled [] = Some []"
| "processedRequests env enabled (x # xs) =
     (if type x = Cancel
      then (if \<not> enabled then map_option ((#) x) (processedRequests env False xs)
            else if q_all_void (map disable (providers env)) = None then Some [x]
            else None)
      else if \<not> providersSucceed env x then None
      else if enabled \<or> command x = Some RestoreBookmarks
      then map_option ((#) x) (processedRequests env enabled xs)
      else if q_all_void (map enable (providers env)) = None
      then map_option ((#) x) (processedRequests env True xs)
      else None)"

text \<open>
  The verdict that counts for the flag \<^verbatim>\<open>updateRemote\<close>: a cancel yields
  \<^verbatim>\<open>false\<close>, another request the verdict of the providers. And whether a bookmark
  provider is registered: without one \<^verbatim>\<open>processedBookmarksData\<close> stays undefined.
\<close>

definition effectiveVerdict :: "Env \<Rightarrow> Sync \<Rightarrow> bool" where
  "effectiveVerdict env sync = (type sync \<noteq> Cancel \<and> aggregatedVerdict env sync)"

definition hasBookmarkProvider :: "Env \<Rightarrow> bool" where
  "hasBookmarkProvider env =
     list_ex (\<lambda>p. providerClass p = BookmarkSyncProviderService) (providers env)"

section \<open>Properties\<close>

subsection \<open>Fields and traces\<close>


lemmas example_defs =
  example_state_def example_sync_def example_env_def example_provider_def example_data_def
  example_failing_env_def example_api_failing_env_def example_api_no_data_env_def
  example_throttled_env_def example_disable_failing_env_def example_cancel_def
  example_request_def example_calls_def

lemmas engine_defs =
  processSyncQueue_def promiseWhile.simps action_def action_process_def action_complete_def
  updateRemoteBookmarks_def catchFailedSync_def handleFailedSync_def
  handleFailedSync_recover_def finallyClearCurrentSync_def disableSync_def enableSync_def
  sync_handleCancel_def setIsSyncing_def logChangeInfo_def lastResult_def
  checkIfDisableSyncOnError_def checkIfRefreshSyncedDataOnError_def
  extractResult_def combineResults_def providerCalls_def syncEnabled_def Let_def

lemma notable_simps [simp]:
  "\<not> notable AutomaticUpdatesStart"
  "\<not> notable AutomaticUpdatesStop"
  "\<not> notable (InterfaceRefresh v t)"
  "\<not> notable RefreshLocalSyncData"
  "\<not> notable (StoreSet k sv)"
  "\<not> notable (StoreRemove k)"
  "\<not> notable (ProviderEnable i)"
  "\<not> notable (ProviderDisable i)"
  "\<not> notable (ProviderProcessSync i x)"
  "\<not> notable (ProviderHandleUpdateRemoteFailed i err)"
  "notable (ApiUpdateBookmarks b)"
  "\<not> notable (LogInfo m)"
  "\<not> notable (LogWarning m)"
  "\<not> notable (ExceptionHandler err)"
  "notable (DeferredResolve d)"
  "notable (DeferredReject d err)"
  by (simp_all add: notable_def)

lemma observed_simps [simp]:
  "observed (emit e s) = observed s @ (if notable e then [e] else [])"
  "observed (emits es s) = observed s @ filter notable es"
  "observed (storeSvc_set k v s) = observed s"
  "observed (storeSvc_remove k s) = observed s"
  "observed (setIsSyncing t s) = observed s"
  "observed (logChangeInfo f s) = observed s"
  "observed (s\<lparr>syncQueue := q\<rparr>) = observed s"
  "observed (s\<lparr>currentSync := c\<rparr>) = observed s"
  by (simp_all add: observed_def setIsSyncing_def logChangeInfo_def split: option.splits)

lemma logChangeInfo_fields [simp]:
  "store (logChangeInfo f s) = store s"
  "currentSync (logChangeInfo f s) = currentSync s"
  "syncQueue (logChangeInfo f s) = syncQueue s"
  "deferredCount (logChangeInfo f s) = deferredCount s"
  "idCount (logChangeInfo f s) = idCount s"
  "syncEnabled (logChangeInfo f s) = syncEnabled s"
  by (simp_all add: logChangeInfo_def syncEnabled_def split: option.splits)

lemma queueSync_push_fields [simp]:
  "store (snd (queueSync_push env new s)) = store s"
  "currentSync (snd (queueSync_push env new s)) = currentSync s"
  "syncEnabled (snd (queueSync_push env new s)) = syncEnabled s"
  by (simp_all add: queueSync_push_def Let_def syncEnabled_def)

lemma providerCalls_quiet [simp]:
  "(\<And>i. \<not> notable (ev i)) \<Longrightarrow> filter notable (providerCalls env ev) = []"
  by (simp add: providerCalls_def filter_empty_conv)

lemma fold_extractResult_fields [simp]:
  "store (snd (fold extractResult prs acc)) = store (snd acc)"
  "currentSync (snd (fold extractResult prs acc)) = currentSync (snd acc)"
  "deferredCount (snd (fold extractResult prs acc)) = deferredCount (snd acc)"
  "idCount (snd (fold extractResult prs acc)) = idCount (snd acc)"
  "syncEnabled (snd (fold extractResult prs acc)) = syncEnabled (snd acc)"
  by (induction prs arbitrary: acc;
      simp add: extractResult_def syncEnabled_def split: ProviderClass.splits)+

lemma extractResult_trace:
  "\<exists>ws. trace (snd (extractResult pr acc)) = trace (snd acc) @ ws
        \<and> set ws \<subseteq> {LogWarning ProviderNotSpecified}"
  by (cases "providerClass (fst pr)") (simp_all add: extractResult_def)

lemma fold_extractResult_trace:
  "\<exists>ws. trace (snd (fold extractResult prs acc)) = trace (snd acc) @ ws
        \<and> set ws \<subseteq> {LogWarning ProviderNotSpecified}"
proof (induction prs arbitrary: acc)
  case Nil
  then show ?case by simp
next
  case (Cons pr prs)
  obtain ws1 where ws1: "trace (snd (extractResult pr acc)) = trace (snd acc) @ ws1"
      "set ws1 \<subseteq> {LogWarning ProviderNotSpecified}"
    using extractResult_trace by blast
  obtain ws2 where ws2: "trace (snd (fold extractResult prs (extractResult pr acc)))
      = trace (snd (extractResult pr acc)) @ ws2" "set ws2 \<subseteq> {LogWarning ProviderNotSpecified}"
    using Cons.IH by blast
  have "trace (snd (fold extractResult (pr # prs) acc)) = trace (snd acc) @ (ws1 @ ws2)"
    using ws1 ws2 by simp
  moreover have "set (ws1 @ ws2) \<subseteq> {LogWarning ProviderNotSpecified}"
    using ws1 ws2 by simp
  ultimately show ?case by blast
qed

lemma fold_extractResult_observed [simp]:
  "observed (snd (fold extractResult prs acc)) = observed (snd acc)"
  by (induction prs arbitrary: acc)
     (simp_all add: extractResult_def split: ProviderClass.splits)

lemma fold_extractResult_Some:
  "fst acc \<noteq> None \<or> (\<exists>pr \<in> set prs. providerClass (fst pr) = BookmarkSyncProviderService)
     \<Longrightarrow> fst (fold extractResult prs acc) \<noteq> None"
proof (induction prs arbitrary: acc)
  case Nil
  then show ?case by simp
next
  case (Cons pr prs)
  have "fst (extractResult pr acc) \<noteq> None
      \<or> (\<exists>pr \<in> set prs. providerClass (fst pr) = BookmarkSyncProviderService)"
    using Cons.prems by (cases "providerClass (fst pr)") (auto simp: extractResult_def)
  then show ?case using Cons.IH [of "extractResult pr acc"] by simp
qed

lemma zip_has_bookmark_provider:
  assumes "\<exists>p \<in> set ps. providerClass p = BookmarkSyncProviderService"
    and "length rs = length ps"
  shows "\<exists>pr \<in> set (zip ps rs). providerClass (fst pr) = BookmarkSyncProviderService"
proof -
  from assms(1) obtain p where p: "p \<in> set ps" "providerClass p = BookmarkSyncProviderService"
    by blast
  then obtain i where i: "i < length ps" "ps ! i = p" by (auto simp: in_set_conv_nth)
  then have "(p, rs ! i) \<in> set (zip ps rs)"
    using assms(2) by (auto simp: set_zip)
  then show ?thesis using p(2) by force
qed

lemma q_all_length: "q_all rs = Inr vs \<Longrightarrow> length vs = length rs"
proof (induction rs arbitrary: vs)
  case Nil
  then show ?case by simp
next
  case (Cons r rs)
  then show ?case by (cases r; cases "q_all rs") auto
qed

subsection \<open>Aggregating the providers' results\<close>

lemma fold_updateRemote:
  "fold (\<lambda>current prev. case updateRemote current of None \<Rightarrow> prev | Some b \<Rightarrow> prev \<and> b) rs acc
     = (acc \<and> list_all (\<lambda>b. b) (List.map_filter updateRemote rs))"
  by (induction rs arbitrary: acc) (auto simp: List.map_filter_simps split: option.splits)

text \<open>
  Claim C4. The verdict aggregated over the providers' results is the conjunction of
  the \<^verbatim>\<open>updateRemote\<close> values that are defined: results without a value are left
  out (\<open>List.map_filter\<close> keeps the defined values only), and with no defined value at
  all the verdict is true.
\<close>

theorem combineResults_and_of_defined:
  "combineResults rs = list_all (\<lambda>b. b) (List.map_filter updateRemote rs)
   \<and> (List.map_filter updateRemote rs = [] \<longrightarrow> combineResults rs)"
  by (simp add: combineResults_def fold_updateRemote)

theorem combineResults_and_of_defined_witness:
  "List.map_filter updateRemote
     [\<lparr>data = example_data, updateRemote = None\<rparr>,
      \<lparr>data = example_data, updateRemote = None\<rparr>] = []
   \<and> combineResults
     [\<lparr>data = example_data, updateRemote = None\<rparr>,
      \<lparr>data = example_data, updateRemote = None\<rparr>]
   \<and> \<not> combineResults
     [\<lparr>data = example_data, updateRemote = Some True\<rparr>,
      \<lparr>data = example_data, updateRemote = None\<rparr>,
      \<lparr>data = example_data, updateRemote = Some False\<rparr>]"
  using combineResults_and_of_defined
          [of "[\<lparr>data = example_data, updateRemote = None\<rparr>,
                \<lparr>data = example_data, updateRemote = None\<rparr>]"]
        combineResults_and_of_defined
          [of "[\<lparr>data = example_data, updateRemote = Some True\<rparr>,
                \<lparr>data = example_data, updateRemote = None\<rparr>,
                \<lparr>data = example_data, updateRemote = Some False\<rparr>]"]
  by (simp add: List.map_filter_simps)

subsection \<open>Enabling and disabling\<close>

lemma disableSync_disabled: "\<not> syncEnabled s \<Longrightarrow> disableSync env s = (Inr (), s)"
  by (simp add: disableSync_def)

lemma disableSync_not_enabled [simp]: "\<not> syncEnabled (snd (disableSync env s))"
  by (simp add: disableSync_def Let_def syncEnabled_def split: option.splits)


lemma disableSync_observed [simp]: "observed (snd (disableSync env s)) = observed s"
  by (simp add: disableSync_def Let_def split: option.splits)

lemma disableSync_currentSync [simp]: "currentSync (snd (disableSync env s)) = currentSync s"
  by (simp add: disableSync_def Let_def split: option.splits)

lemma disableSync_queue_cases:
  "syncQueue (snd (disableSync env s)) = syncQueue s \<or> syncQueue (snd (disableSync env s)) = []"
  by (simp add: disableSync_def Let_def split: option.splits)

lemma disableSync_ok:
  "q_all_void (map disable (providers env)) = None \<Longrightarrow> fst (disableSync env s) = Inr ()"
  by (simp add: disableSync_def Let_def)


lemma enableSync_trace:
  "trace (snd (enableSync env s)) =
     trace s @ [StoreSet SyncEnabled (VBool True), AutomaticUpdatesStart]
       @ providerCalls env ProviderEnable"
  by (simp add: enableSync_def Let_def split: option.splits)

lemma enableSync_observed [simp]: "observed (snd (enableSync env s)) = observed s"
  by (simp add: enableSync_def Let_def split: option.splits)

lemma enableSync_currentSync [simp]: "currentSync (snd (enableSync env s)) = currentSync s"
  by (simp add: enableSync_def Let_def split: option.splits)

text \<open>
  Claim C8. \<^verbatim>\<open>disableSync\<close> does nothing when the stored flag is already false, and a
  second call right after a first one leaves the state of the first: the same store,
  queue and current sync, and the same trace, so no provider is disabled a second time.
\<close>

theorem disableSync_idempotent:
  "(\<not> syncEnabled s \<longrightarrow> disableSync env s = (Inr (), s))
   \<and> snd (disableSync env (snd (disableSync env s))) = snd (disableSync env s)"
  by (simp add: disableSync_disabled)

theorem disableSync_idempotent_witness:
  "\<not> syncEnabled (example_state False [])
   \<and> disableSync example_env (example_state False []) = (Inr (), example_state False [])
   \<and> snd (disableSync example_env (snd (disableSync example_env (example_state True []))))
       = snd (disableSync example_env (example_state True []))
   \<and> trace (snd (disableSync example_env (example_state True []))) =
       [AutomaticUpdatesStop, StoreRemove Password, StoreRemove SyncVersion,
        StoreSet SyncEnabled (VBool False), ProviderDisable 0,
        InterfaceRefresh None None, LogInfo SyncDisabledMsg,
        InterfaceRefresh (Some (VBool False)) None]"
  using disableSync_idempotent [of "example_state False []" example_env]
        disableSync_idempotent [of "example_state True []" example_env]
  by (simp add: example_state_def syncEnabled_def disableSync_def example_env_def
        example_provider_def providerCalls_def setIsSyncing_def Let_def)

text \<open>
  A second call of \<^verbatim>\<open>enableSync\<close>, made while the stored flag is true, starts the
  automatic updates again and calls \<^verbatim>\<open>enable\<close> on the provider again.
\<close>

theorem enableSync_twice_counterexample:
  "syncEnabled (snd (enableSync example_env (example_state True [])))
   \<and> trace (snd (enableSync example_env (snd (enableSync example_env (example_state True [])))))
       = trace (snd (enableSync example_env (example_state True [])))
           @ [StoreSet SyncEnabled (VBool True), AutomaticUpdatesStart, ProviderEnable 0]
   \<and> count_list
        (trace (snd (enableSync example_env (snd (enableSync example_env (example_state True []))))))
        AutomaticUpdatesStart = 2
   \<and> count_list
        (trace (snd (enableSync example_env (snd (enableSync example_env (example_state True []))))))
        (ProviderEnable 0) = 2"
  by (simp add: example_state_def syncEnabled_def enableSync_def example_env_def
        example_provider_def providerCalls_def Let_def)

text \<open>
  Claim C9, as amended. \<^verbatim>\<open>enableSync\<close> does not read the stored flag: every call,
  whatever the flag, writes \<^verbatim>\<open>SyncEnabled = true\<close>, starts the automatic updates once
  and calls \<^verbatim>\<open>enable\<close> once on every registered provider.
\<close>

theorem enableSync_unguarded:
  "trace (snd (enableSync env s)) =
     trace s @ [StoreSet SyncEnabled (VBool True), AutomaticUpdatesStart]
       @ providerCalls env ProviderEnable
   \<and> syncEnabled (snd (enableSync env s))"
  by (simp add: enableSync_def Let_def syncEnabled_def split: option.splits)

subsection \<open>One run of \<^verbatim>\<open>action\<close>\<close>


lemma action_process_shape:
  assumes "action_process env cur l s = (r, l', s')"
  shows "observed s' = observed s \<and> currentSync s' = currentSync s
         \<and> (syncQueue s' = syncQueue s \<or> syncQueue s' = [])"
proof (cases "type cur = Cancel")
  case True
  obtain rd sd where d: "disableSync env s = (rd, sd)" by (cases "disableSync env s") auto
  have "observed sd = observed s" "currentSync sd = currentSync s"
      "syncQueue sd = syncQueue s \<or> syncQueue sd = []"
    using disableSync_observed [of env s] disableSync_currentSync [of env s]
      disableSync_queue_cases [of env s] d by simp_all
  moreover have "s' = sd"
    using assms True d by (cases rd) (simp_all add: action_process_def sync_handleCancel_def)
  ultimately show ?thesis by simp
next
  case False
  then show ?thesis using assms
    by (auto simp: action_process_def Let_def split_beta split: sum.splits)
qed

lemma action_complete_shape:
  assumes "action_complete env cur syncChange l s = (r, l', s')"
  shows "observed s' = observed s @ (case r of Inl e \<Rightarrow> [] | Inr u \<Rightarrow> [DeferredResolve (deferred cur)])
         \<and> currentSync s' = currentSync s \<and> syncQueue s' = syncQueue s"
proof -
  obtain re se where e: "enableSync env s = (re, se)" by (cases "enableSync env s") auto
  have "observed se = observed s" "currentSync se = currentSync s" "syncQueue se = syncQueue s"
    using enableSync_observed [of env s] enableSync_currentSync [of env s]
      enableSync_queue [of env s] e by simp_all
  then show ?thesis using assms e
    by (cases re) (auto simp: action_complete_def split: if_splits)
qed

lemma action_shape:
  assumes q: "syncQueue s = cur # rest"
    and a: "action env isBackgroundSync l s = (r, l', s')"
  shows "observed s' = observed s @ (case r of Inl e \<Rightarrow> [] | Inr u \<Rightarrow> [DeferredResolve (deferred cur)])
         \<and> currentSync s' = Some cur
         \<and> (syncQueue s' = rest \<or> syncQueue s' = [])"
proof -
  define s3 where "s3 = setIsSyncing (Some (type cur))
      (emit (LogInfo (ProcessingSync (uniqueId cur) isBackgroundSync (length rest)))
        (s\<lparr>currentSync := Some cur, syncQueue := rest\<rparr>))"
  have s3: "observed s3 = observed s" "currentSync s3 = Some cur" "syncQueue s3 = rest"
    by (simp_all add: s3_def)
  obtain rp lp sp where p: "action_process env cur l s3 = (rp, lp, sp)"
    by (cases "action_process env cur l s3") auto
  note ps = action_process_shape [OF p]
  show ?thesis
  proof (cases rp)
    case (Inl e)
    then have "r = Inl e" "s' = sp"
      using a q p by (simp_all add: action_def Let_def s3_def [symmetric])
    then show ?thesis using ps s3 by auto
  next
    case (Inr syncChange)
    then have c: "action_complete env cur syncChange lp sp = (r, l', s')"
      using a q p by (simp add: action_def Let_def s3_def [symmetric])
    show ?thesis using action_complete_shape [OF c] ps s3 by auto
  qed
qed

lemma action_currentSync:
  "syncQueue s \<noteq> [] \<Longrightarrow>
     currentSync (snd (snd (action env isBackgroundSync l s))) = Some (hd (syncQueue s))"
proof -
  assume "syncQueue s \<noteq> []"
  then obtain cur rest where q: "syncQueue s = cur # rest" by (cases "syncQueue s") auto
  obtain r l' s' where a: "action env isBackgroundSync l s = (r, l', s')"
    by (cases "action env isBackgroundSync l s") auto
  from action_shape [OF q a] show ?thesis using q a by simp
qed

text \<open>
  Claim C10. When \<^verbatim>\<open>action\<close> takes a sync that is not a cancel and whose command is
  not \<^verbatim>\<open>RestoreBookmarks\<close>, the providers process it and the stored flag is false,
  then \<^verbatim>\<open>action\<close> itself enables sync (given that the providers' \<^verbatim>\<open>enable\<close>
  resolve): the trace of the run ends with the store write \<^verbatim>\<open>SyncEnabled = true\<close>,
  the start of the automatic updates and \<^verbatim>\<open>enable\<close> on every provider, and only
  then the resolution of the sync's deferred; no deferred is settled before. The flag is
  true afterwards.
\<close>

theorem action_enables_before_resolve:
  assumes q: "syncQueue s = cur # rest"
    and ty: "type cur \<noteq> Cancel"
    and cmd: "command cur \<noteq> Some RestoreBookmarks"
    and off: "\<not> syncEnabled s"
    and ok: "q_all (map (\<lambda>provider. processSync provider cur) (providers env)) = Inr results"
    and en: "q_all_void (map enable (providers env)) = None"
  shows "fst (action env isBackgroundSync l s) = Inr ()
         \<and> (\<exists>pre. trace (snd (snd (action env isBackgroundSync l s))) = trace s @ pre
                @ [StoreSet SyncEnabled (VBool True), AutomaticUpdatesStart]
                @ providerCalls env ProviderEnable
                @ [LogInfo SyncEnabledMsg, DeferredResolve (deferred cur),
                   InterfaceRefresh (Some (VBool True)) None]
              \<and> list_all (\<lambda>e. \<not> isSettlement e) pre)
         \<and> syncEnabled (snd (snd (action env isBackgroundSync l s)))"
proof -
  define s3 where "s3 = setIsSyncing (Some (type cur))
      (emit (LogInfo (ProcessingSync (uniqueId cur) isBackgroundSync (length rest)))
        (s\<lparr>currentSync := Some cur, syncQueue := rest\<rparr>))"
  define s4 where "s4 = emits (providerCalls env (\<lambda>i. ProviderProcessSync i cur)) s3"
  define acc where "acc = fold extractResult (zip (providers env) results)
      (processedBookmarksData l, s4)"
  obtain ws where ws: "trace (snd acc) = trace s4 @ ws"
      "set ws \<subseteq> {LogWarning ProviderNotSpecified}"
    using fold_extractResult_trace [of "zip (providers env) results" "(processedBookmarksData l, s4)"]
    by (auto simp: acc_def)
  have off4: "\<not> syncEnabled (snd acc)"
    using off by (simp add: acc_def s4_def s3_def syncEnabled_def)
  have ap: "action_process env cur l s3 =
      (Inr (combineResults results), l\<lparr>processedBookmarksData := fst acc\<rparr>, snd acc)"
    using ty ok by (simp add: action_process_def Let_def s4_def acc_def split_beta)
  obtain s5 where e5: "enableSync env (snd acc) = (Inr (), s5)"
    using en by (simp add: enableSync_def Let_def)
  have t5: "trace s5 = trace (snd acc)
      @ [StoreSet SyncEnabled (VBool True), AutomaticUpdatesStart] @ providerCalls env ProviderEnable"
    using enableSync_trace [of env "snd acc"] e5 by simp
  have st5: "store s5 SyncEnabled = Some (VBool True)"
    using e5 en by (auto simp: enableSync_def Let_def)
  define pre where "pre = [LogInfo (ProcessingSync (uniqueId cur) isBackgroundSync (length rest)),
      InterfaceRefresh None (Some (type cur))]
      @ providerCalls env (\<lambda>i. ProviderProcessSync i cur) @ ws"
  define l' where "l' = (l\<lparr>processedBookmarksData := fst acc\<rparr>)\<lparr>updateRemoteVar :=
      (if \<not> combineResults results then False else if type cur \<noteq> Local then True
       else updateRemoteVar (l\<lparr>processedBookmarksData := fst acc\<rparr>))\<rparr>"
  define s' where "s' = setIsSyncing None
      (emit (DeferredResolve (deferred cur)) (emit (LogInfo SyncEnabledMsg) s5))"
  have ac: "action_complete env cur (combineResults results)
      (l\<lparr>processedBookmarksData := fst acc\<rparr>) (snd acc) = (Inr (), l', s')"
    using off4 cmd ty e5 by (simp add: action_complete_def l'_def s'_def)
  have a: "action env isBackgroundSync l s = (Inr (), l', s')"
    using q ap ac by (simp add: action_def Let_def s3_def [symmetric])
  have tr: "trace s' = trace s @ pre
      @ [StoreSet SyncEnabled (VBool True), AutomaticUpdatesStart]
      @ providerCalls env ProviderEnable
      @ [LogInfo SyncEnabledMsg, DeferredResolve (deferred cur),
         InterfaceRefresh (Some (VBool True)) None]"
    using t5 ws st5
    by (simp add: s'_def pre_def s4_def s3_def setIsSyncing_def)
  have ns: "list_all (\<lambda>e. \<not> isSettlement e) pre"
    using ws by (auto simp: pre_def providerCalls_def list_all_iff)
  have "syncEnabled s'"
    using st5 by (simp add: s'_def syncEnabled_def)
  with a tr ns show ?thesis by auto
qed

theorem action_enables_before_resolve_witness:
  "fst (action example_env False \<lparr>processedBookmarksData = None, updateRemoteVar = False\<rparr>
          (example_state False [example_sync Remote 0])) = Inr ()
   \<and> trace (snd (snd (action example_env False
       \<lparr>processedBookmarksData = None, updateRemoteVar = False\<rparr>
       (example_state False [example_sync Remote 0]))))
     = [LogInfo (ProcessingSync ''id'' False 0), InterfaceRefresh None (Some Remote),
        ProviderProcessSync 0 (example_sync Remote 0),
        StoreSet SyncEnabled (VBool True), AutomaticUpdatesStart, ProviderEnable 0,
        LogInfo SyncEnabledMsg, DeferredResolve 0, InterfaceRefresh (Some (VBool True)) None]
   \<and> syncEnabled (snd (snd (action example_env False
       \<lparr>processedBookmarksData = None, updateRemoteVar = False\<rparr>
       (example_state False [example_sync Remote 0]))))"
proof -
  have h: "syncQueue (example_state False [example_sync Remote 0]) = example_sync Remote 0 # []"
    "type (example_sync Remote 0) \<noteq> Cancel"
    "command (example_sync Remote 0) \<noteq> Some RestoreBookmarks"
    "\<not> syncEnabled (example_state False [example_sync Remote 0])"
    "q_all (map (\<lambda>provider. processSync provider (example_sync Remote 0)) (providers example_env))
       = Inr [\<lparr>data = example_data, updateRemote = Some True\<rparr>]"
    "q_all_void (map enable (providers example_env)) = None"
    by (simp_all add: example_state_def example_sync_def example_env_def example_provider_def
          syncEnabled_def)
  have t: "trace (snd (snd (action example_env False
       \<lparr>processedBookmarksData = None, updateRemoteVar = False\<rparr>
       (example_state False [example_sync Remote 0]))))
     = [LogInfo (ProcessingSync ''id'' False 0), InterfaceRefresh None (Some Remote),
        ProviderProcessSync 0 (example_sync Remote 0),
        StoreSet SyncEnabled (VBool True), AutomaticUpdatesStart, ProviderEnable 0,
        LogInfo SyncEnabledMsg, DeferredResolve 0, InterfaceRefresh (Some (VBool True)) None]"
    by (simp add: action_def action_process_def action_complete_def enableSync_def
          example_state_def example_sync_def example_env_def example_provider_def
          syncEnabled_def providerCalls_def extractResult_def combineResults_def
          setIsSyncing_def Let_def)
  from action_enables_before_resolve [OF h] t show ?thesis by simp
qed

subsection \<open>Failure handling\<close>




lemma handleFailedSync_recover_observed [simp]:
  "observed (snd (handleFailedSync_recover env f enabled err s)) = observed s"
  by (simp add: handleFailedSync_recover_def Let_def split: option.splits)

lemma handleFailedSync_shape:
  "\<exists>e. observed (snd (handleFailedSync env f err s)) = observed s @ [DeferredReject (deferred f) e]
       \<and> (q_all_void (map disable (providers env)) = None \<longrightarrow>
            fst (handleFailedSync env f err s) = Inr e
            \<or> fst (handleFailedSync env f err s) = Inr (Exception SyncUncommittedException (Some e)))"
proof (cases "instanceOf err NetworkOfflineException \<and> type f \<noteq> Local")
  case True
  then show ?thesis by (simp add: handleFailedSync_def Let_def)
next
  case False
  define err1 where "err1 = (if isException err then err else Exception SyncFailedException (Some err))"
  define s2 where "s2 = setIsSyncing None (logChangeInfo f (emit (ExceptionHandler err1)
      (emit (LogWarning (SyncFailedMsg (uniqueId f))) (emit (InterfaceRefresh None None) s))))"
  define en where "en = syncEnabled s"
  obtain err2 s3 where rc: "handleFailedSync_recover env f en err1 s2 = (err2, s3)"
    by (cases "handleFailedSync_recover env f en err1 s2") auto
  have "observed (snd (handleFailedSync_recover env f en err1 s2)) = observed s"
    by (simp add: s2_def)
  then have o3: "observed s3 = observed s"
    using rc by simp
  obtain rd s4 where d: "(if checkIfDisableSyncOnError err2 then disableSync env s3 else (Inr (), s3)) = (rd, s4)"
    by (cases "if checkIfDisableSyncOnError err2 then disableSync env s3 else (Inr (), s3)") auto
  have "observed (snd (if checkIfDisableSyncOnError err2 then disableSync env s3 else (Inr (), s3)))
      = observed s"
    using o3 by simp
  then have o4: "observed s4 = observed s"
    using d by simp
  have "q_all_void (map disable (providers env)) = None \<Longrightarrow>
      fst (if checkIfDisableSyncOnError err2 then disableSync env s3 else (Inr (), s3)) = Inr ()"
    by (simp add: disableSync_ok)
  then have rd: "q_all_void (map disable (providers env)) = None \<Longrightarrow> rd = Inr ()"
    using d by simp
  have h: "handleFailedSync env f err s =
      ((case rd of Inl e \<Rightarrow> Inl e | Inr u \<Rightarrow> Inr err2), emit (DeferredReject (deferred f) err2) s4)"
    using False rc d
    by (auto simp add: handleFailedSync_def Let_def err1_def [symmetric] s2_def [symmetric]
          en_def [symmetric])
  show ?thesis using h o4 rd by (intro exI [of _ err2]) auto
qed


text \<open>
  Claim C2, on the code. For an offline error and a sync that is not local,
  \<^verbatim>\<open>handleFailedSync\<close> hands a \<^verbatim>\<open>SyncUncommittedException\<close> to the drain, and
  leaves the queue and the store as they are; but it rejects the sync's deferred with
  the offline error itself, not with the \<^verbatim>\<open>SyncUncommittedException\<close>.
\<close>

theorem handleFailedSync_offline:
  assumes "instanceOf err NetworkOfflineException" and "type failedSync \<noteq> Local"
  shows "handleFailedSync env failedSync err s =
           (Inr (Exception SyncUncommittedException (Some err)),
            emit (DeferredReject (deferred failedSync) err) (emit (InterfaceRefresh None None) s))"
  using assms by (simp add: handleFailedSync_def Let_def)

theorem handleFailedSync_offline_witness:
  "handleFailedSync example_env (example_sync Remote 0) (Exception NetworkOfflineException None)
       (example_state True [example_sync Local 1])
     = (Inr (Exception SyncUncommittedException (Some (Exception NetworkOfflineException None))),
        emit (DeferredReject 0 (Exception NetworkOfflineException None))
          (emit (InterfaceRefresh None None) (example_state True [example_sync Local 1])))
   \<and> deferredState (trace (snd (handleFailedSync example_env (example_sync Remote 0)
         (Exception NetworkOfflineException None) (example_state True [example_sync Local 1])))) 0
     = Rejected (Exception NetworkOfflineException None)"
proof -
  have h: "instanceOf (Exception NetworkOfflineException None) NetworkOfflineException"
      "type (example_sync Remote 0) \<noteq> Local"
    by (simp_all add: example_defs)
  from handleFailedSync_offline [OF h, of example_env "example_state True [example_sync Local 1]"]
  show ?thesis by (simp add: example_defs)
qed







subsection \<open>The drain\<close>


lemma promiseWhile_shape:
  assumes "promiseWhile env isBackgroundSync l s = (r, l', s')"
  shows "\<exists>done post. syncQueue s = done @ post
          \<and> observed s' = observed s @ map (\<lambda>x. DeferredResolve (deferred x)) done
          \<and> (case r of
                Inl e \<Rightarrow> (\<exists>x post'. post = x # post' \<and> currentSync s' = Some x)
              | Inr u \<Rightarrow> syncQueue s' = [] \<and> (done = [] \<longrightarrow> s' = s \<and> l' = l)
                         \<and> (done \<noteq> [] \<longrightarrow> currentSync s' = Some (last done)))"
  using assms
proof (induction env isBackgroundSync l s arbitrary: r l' s' rule: promiseWhile.induct)
  case (1 env isBackgroundSync l s)
  show ?case
  proof (cases "syncQueue s")
    case Nil
    then have "r = Inr ()" "l' = l" "s' = s"
      using "1.prems" by (simp_all add: promiseWhile.simps [of env isBackgroundSync l s])
    then show ?thesis using Nil by simp
  next
    case (Cons cur rest)
    obtain ra la sa where a: "action env isBackgroundSync l s = (ra, la, sa)"
      by (cases "action env isBackgroundSync l s") auto
    note sh = action_shape [OF Cons a]
    show ?thesis
    proof (cases ra)
      case (Inl e)
      then have "r = Inl e" "s' = sa"
        using "1.prems" Cons a by (simp_all add: promiseWhile.simps [of env isBackgroundSync l s])
      then have "syncQueue s = [] @ (cur # rest)"
          "observed s' = observed s @ map (\<lambda>x. DeferredResolve (deferred x)) []"
          "currentSync s' = Some cur"
        using sh Inl Cons by simp_all
      then show ?thesis using \<open>r = Inl e\<close> by (intro exI [of _ "[]"] exI [of _ "cur # rest"]) simp
    next
      case (Inr u)
      then have rec: "promiseWhile env isBackgroundSync la sa = (r, l', s')"
        using "1.prems" Cons a by (simp add: promiseWhile.simps [of env isBackgroundSync l s])
      have ne: "syncQueue s \<noteq> []" using Cons by simp
      from "1.IH" [OF ne a [symmetric] Inr refl rec]
      obtain done' post' where ih: "syncQueue sa = done' @ post'"
          "observed s' = observed sa @ map (\<lambda>x. DeferredResolve (deferred x)) done'"
          "case r of
             Inl e \<Rightarrow> (\<exists>x post''. post' = x # post'' \<and> currentSync s' = Some x)
           | Inr u \<Rightarrow> syncQueue s' = [] \<and> (done' = [] \<longrightarrow> s' = sa \<and> l' = la)
                      \<and> (done' \<noteq> [] \<longrightarrow> currentSync s' = Some (last done'))"
        by blast
      have obs: "observed s' = observed s @ map (\<lambda>x. DeferredResolve (deferred x)) (cur # done')"
        using sh Inr ih(2) by simp
      from sh have "syncQueue sa = rest \<or> syncQueue sa = []" by simp
      then show ?thesis
      proof
        assume "syncQueue sa = rest"
        then have "syncQueue s = (cur # done') @ post'" using Cons ih(1) by simp
        moreover have "case r of
             Inl e \<Rightarrow> (\<exists>x post''. post' = x # post'' \<and> currentSync s' = Some x)
           | Inr u \<Rightarrow> syncQueue s' = [] \<and> (cur # done' = [] \<longrightarrow> s' = s \<and> l' = l)
                      \<and> (cur # done' \<noteq> [] \<longrightarrow> currentSync s' = Some (last (cur # done')))"
          using ih(3) sh by (cases r) auto
        ultimately show ?thesis using obs by blast
      next
        assume e: "syncQueue sa = []"
        then have d: "done' = []" "post' = []" using ih(1) by simp_all
        then obtain u' where r: "r = Inr u'" using ih(3) by (cases r) auto
        have "syncQueue s = [cur] @ rest" using Cons by simp
        moreover have "observed s' = observed s @ map (\<lambda>x. DeferredResolve (deferred x)) [cur]"
          using obs d by simp
        moreover have "syncQueue s' = []" "currentSync s' = Some (last [cur])"
          using ih(3) r d sh by auto
        ultimately show ?thesis using r
          by (intro exI [of _ "[cur]"] exI [of _ rest]) simp
      qed
    qed
  qed
qed

lemma updateRemoteBookmarks_shape:
  "observed (snd (updateRemoteBookmarks env l s)) =
     observed s @ (if updateRemoteVar l
                   then (case processedBookmarksData l of
                           None \<Rightarrow> []
                         | Some d \<Rightarrow> [ApiUpdateBookmarks (encryptedBookmarks d)])
                   else [])"
  "currentSync (snd (updateRemoteBookmarks env l s)) = currentSync s"
  by (simp_all add: updateRemoteBookmarks_def Let_def split: option.splits sum.splits)



lemma finallyClearCurrentSync_simps [simp]:
  "observed (finallyClearCurrentSync s) = observed s"
  "currentSync (finallyClearCurrentSync s) = None"
  "syncQueue (finallyClearCurrentSync s) = syncQueue s"
  "store (finallyClearCurrentSync s) = store s"
  by (simp_all add: finallyClearCurrentSync_def Let_def)


lemma processSyncQueue_idle:
  "currentSync s = None \<Longrightarrow> currentSync (snd (processSyncQueue env isBackgroundSync s)) = None"
  by (simp add: processSyncQueue_def Let_def split_beta)

lemma processSyncQueue_guard:
  "currentSync s \<noteq> None \<or> syncQueue s = [] \<Longrightarrow> processSyncQueue env isBackgroundSync s = (Inr (), s)"
  by (auto simp: processSyncQueue_def)

lemma catchFailedSync_shape:
  assumes "currentSync s = Some x"
  shows "\<exists>e final. catchFailedSync err env s = (Inl final, snd (catchFailedSync err env s))
           \<and> observed (snd (catchFailedSync err env s)) = observed s @ [DeferredReject (deferred x) e]
           \<and> (q_all_void (map disable (providers env)) = None \<longrightarrow>
                final = e \<or> final = Exception SyncUncommittedException (Some e))"
proof -
  obtain e where e: "observed (snd (handleFailedSync env x err s))
        = observed s @ [DeferredReject (deferred x) e]"
      "q_all_void (map disable (providers env)) = None \<longrightarrow>
         fst (handleFailedSync env x err s) = Inr e
         \<or> fst (handleFailedSync env x err s) = Inr (Exception SyncUncommittedException (Some e))"
    using handleFailedSync_shape [of env x err s] by auto
  obtain r s' where h: "handleFailedSync env x err s = (r, s')"
    by (cases "handleFailedSync env x err s") auto
  show ?thesis
  proof (cases r)
    case (Inl e')
    then show ?thesis using assms h e
      by (auto simp: catchFailedSync_def)
  next
    case (Inr e')
    then show ?thesis using assms h e
      by (auto simp: catchFailedSync_def)
  qed
qed

subsection \<open>Calls that overlap\<close>

lemma runSchedule_append:
  "runSchedule env (xs @ ys) c = runSchedule env ys (runSchedule env xs c)"
proof (induction xs arbitrary: c)
  case Nil
  then show ?case by simp
next
  case (Cons i xs)
  then show ?case by (cases c) (simp add: split_beta Let_def)
qed

lemma run_none: "runSchedule env (replicate 0 0) c = c"
  by simp

lemma run_step:
  assumes "step env t s = (t', s')"
    and "runSchedule env (replicate n 0) ([t'], s') = c"
  shows "runSchedule env (replicate (Suc n) 0) ([t], s) = c"
  using assms by simp

lemma action_process_currentSync:
  "currentSync (snd (snd (action_process env cur l s))) = currentSync s"
  using action_process_shape [of env cur l s] by (cases "action_process env cur l s") simp

text \<open>
  A drain that runs alone goes through its steps to the result of \<open>processSyncQueue\<close>:
  first the loop, then the whole drain.
\<close>

lemma loop_alone:
  "\<exists>n. runSchedule env (replicate n 0) ([DrainLoop isBackgroundSync l], s) =
         (case promiseWhile env isBackgroundSync l s of
            (Inl e, l', s') \<Rightarrow> ([DrainFailed e], s')
          | (Inr u, l', s') \<Rightarrow> ([DrainCommit l'], s'))"
proof (induction env isBackgroundSync l s rule: promiseWhile.induct)
  case (1 env isBackgroundSync l s)
  note pw = promiseWhile.simps [of env isBackgroundSync l s]
  let ?target = "\<lambda>l s. case promiseWhile env isBackgroundSync l s of
            (Inl e, l', s') \<Rightarrow> ([DrainFailed e], s')
          | (Inr u, l', s') \<Rightarrow> ([DrainCommit l'], s')"
  show ?case
  proof (cases "syncQueue s")
    case Nil
    have st: "step env (DrainLoop isBackgroundSync l) s = (DrainCommit l, s)"
      using Nil by simp
    have tgt: "?target l s = ([DrainCommit l], s)"
      using Nil by (simp add: pw)
    have "runSchedule env (replicate (Suc 0) 0) ([DrainLoop isBackgroundSync l], s) =
        ([DrainCommit l], s)"
      by (rule run_step [OF st run_none])
    then have "runSchedule env (replicate (Suc 0) 0) ([DrainLoop isBackgroundSync l], s) =
        ?target l s"
      by (simp only: tgt)
    then show ?thesis by (rule exI)
  next
    case (Cons cur rest)
    define s3 where "s3 = setIsSyncing (Some (type cur))
        (emit (LogInfo (ProcessingSync (uniqueId cur) isBackgroundSync (length rest)))
          (s\<lparr>currentSync := Some cur, syncQueue := rest\<rparr>))"
    have c3: "currentSync s3 = Some cur" by (simp add: s3_def)
    have st1: "step env (DrainLoop isBackgroundSync l) s = (ActionShifted isBackgroundSync l, s3)"
      using Cons by (simp add: Let_def s3_def)
    obtain rp lp sp where p: "action_process env cur l s3 = (rp, lp, sp)"
      by (cases "action_process env cur l s3") auto
    have cp: "currentSync sp = Some cur"
      using action_process_currentSync [of env cur l s3] p c3 by simp
    show ?thesis
    proof (cases rp)
      case (Inl e)
      have a: "action env isBackgroundSync l s = (Inl e, lp, sp)"
        using Cons p Inl by (simp add: action_def Let_def s3_def [symmetric])
      have st2: "step env (ActionShifted isBackgroundSync l) s3 = (DrainFailed e, sp)"
        using c3 p Inl by simp
      have tgt: "?target l s = ([DrainFailed e], sp)"
        using Cons a by (simp add: pw)
      have "runSchedule env (replicate (Suc (Suc 0)) 0) ([DrainLoop isBackgroundSync l], s) =
          ([DrainFailed e], sp)"
        by (rule run_step [OF st1 run_step [OF st2 run_none]])
      then have "runSchedule env (replicate (Suc (Suc 0)) 0) ([DrainLoop isBackgroundSync l], s) =
          ?target l s"
        by (simp only: tgt)
      then show ?thesis by (rule exI)
    next
      case (Inr syncChange)
      have st2: "step env (ActionShifted isBackgroundSync l) s3 =
          (ActionProcessed isBackgroundSync lp syncChange, sp)"
        using c3 p Inr by simp
      obtain rc lc sc where c: "action_complete env cur syncChange lp sp = (rc, lc, sc)"
        by (cases "action_complete env cur syncChange lp sp") auto
      have a: "action env isBackgroundSync l s = (rc, lc, sc)"
        using Cons p Inr c by (simp add: action_def Let_def s3_def [symmetric])
      show ?thesis
      proof (cases rc)
        case (Inl e)
        have st3: "step env (ActionProcessed isBackgroundSync lp syncChange) sp =
            (DrainFailed e, sc)"
          using cp c Inl by simp
        have tgt: "?target l s = ([DrainFailed e], sc)"
          using Cons a Inl by (simp add: pw)
        have "runSchedule env (replicate (Suc (Suc (Suc 0))) 0)
            ([DrainLoop isBackgroundSync l], s) = ([DrainFailed e], sc)"
          by (rule run_step [OF st1 run_step [OF st2 run_step [OF st3 run_none]]])
        then have "runSchedule env (replicate (Suc (Suc (Suc 0))) 0)
            ([DrainLoop isBackgroundSync l], s) = ?target l s"
          by (simp only: tgt)
        then show ?thesis by (rule exI)
      next
        case (Inr u)
        have st3: "step env (ActionProcessed isBackgroundSync lp syncChange) sp =
            (DrainLoop isBackgroundSync lc, sc)"
          using cp c Inr by simp
        have ne: "syncQueue s \<noteq> []" using Cons by simp
        from "1.IH" [OF ne a [symmetric] Inr refl]
        obtain n where n: "runSchedule env (replicate n 0) ([DrainLoop isBackgroundSync lc], sc) =
            ?target lc sc"
          by blast
        have tgt: "?target l s = ?target lc sc"
          using Cons a Inr by (simp add: pw)
        have "runSchedule env (replicate (Suc (Suc (Suc n))) 0)
            ([DrainLoop isBackgroundSync l], s) = ?target lc sc"
          by (rule run_step [OF st1 run_step [OF st2 run_step [OF st3 n]]])
        then have "runSchedule env (replicate (Suc (Suc (Suc n))) 0)
            ([DrainLoop isBackgroundSync l], s) = ?target l s"
          by (simp only: tgt)
        then show ?thesis by (rule exI)
      qed
    qed
  qed
qed

lemma drain_alone:
  "\<exists>n. runSchedule env (replicate n 0) ([DrainCalled isBackgroundSync], s) =
         ([Finished (fst (processSyncQueue env isBackgroundSync s))],
          snd (processSyncQueue env isBackgroundSync s))"
proof (cases "currentSync s \<noteq> None \<or> syncQueue s = []")
  case True
  have st: "step env (DrainCalled isBackgroundSync) s = (Finished (Inr ()), s)"
    using True by auto
  have P: "processSyncQueue env isBackgroundSync s = (Inr (), s)"
    using True by (rule processSyncQueue_guard)
  have "runSchedule env (replicate (Suc 0) 0) ([DrainCalled isBackgroundSync], s) =
      ([Finished (Inr ())], s)"
    by (rule run_step [OF st run_none])
  then have "runSchedule env (replicate (Suc 0) 0) ([DrainCalled isBackgroundSync], s) =
      ([Finished (fst (processSyncQueue env isBackgroundSync s))],
       snd (processSyncQueue env isBackgroundSync s))"
    by (simp only: P fst_conv snd_conv)
  then show ?thesis by (rule exI)
next
  case False
  define l0 where "l0 = \<lparr>processedBookmarksData = None, updateRemoteVar = False\<rparr>"
  define s1 where "s1 = (if syncEnabled s then emit AutomaticUpdatesStop s else s)"
  obtain r l s2 where pw: "promiseWhile env isBackgroundSync l0 s1 = (r, l, s2)"
    by (cases "promiseWhile env isBackgroundSync l0 s1") auto
  obtain r' s3 where c: "(case r of Inl e \<Rightarrow> (Inl e, s2)
                          | Inr u \<Rightarrow> updateRemoteBookmarks env l s2) = (r', s3)"
    by (cases "case r of Inl e \<Rightarrow> (Inl e, s2) | Inr u \<Rightarrow> updateRemoteBookmarks env l s2") auto
  obtain r'' s4 where h: "(case r' of Inl err \<Rightarrow> catchFailedSync err env s3
                           | Inr u \<Rightarrow> (Inr (), s3)) = (r'', s4)"
    by (cases "case r' of Inl err \<Rightarrow> catchFailedSync err env s3 | Inr u \<Rightarrow> (Inr (), s3)") auto
  have P: "processSyncQueue env isBackgroundSync s = (r'', finallyClearCurrentSync s4)"
    using False pw c h by (simp add: processSyncQueue_def Let_def l0_def s1_def)
  have st1: "step env (DrainCalled isBackgroundSync) s = (DrainStarted isBackgroundSync, s)"
    using False by auto
  have st2: "step env (DrainStarted isBackgroundSync) s = (DrainLoop isBackgroundSync l0, s1)"
    by (simp add: l0_def s1_def)
  have fin: "step env (DrainFinally r'') s4 = (Finished r'', finallyClearCurrentSync s4)"
    by simp
  obtain n where "runSchedule env (replicate n 0) ([DrainLoop isBackgroundSync l0], s1) =
      (case promiseWhile env isBackgroundSync l0 s1 of
            (Inl e, l', s') \<Rightarrow> ([DrainFailed e], s')
          | (Inr u, l', s') \<Rightarrow> ([DrainCommit l'], s'))"
    using loop_alone [of env isBackgroundSync l0 s1] by blast
  then have n: "runSchedule env (replicate n 0) ([DrainLoop isBackgroundSync l0], s1) =
      (case r of Inl e \<Rightarrow> ([DrainFailed e], s2) | Inr u \<Rightarrow> ([DrainCommit l], s2))"
    by (cases r) (simp_all add: pw)
  have rest: "\<exists>m. runSchedule env (replicate m 0)
      (case r of Inl e \<Rightarrow> ([DrainFailed e], s2) | Inr u \<Rightarrow> ([DrainCommit l], s2)) =
        ([Finished r''], finallyClearCurrentSync s4)"
  proof (cases r)
    case (Inl e)
    then have "r' = Inl e" "s3 = s2" using c by simp_all
    then have "catchFailedSync e env s2 = (r'', s4)" using h by simp
    then have st: "step env (DrainFailed e) s2 = (DrainFinally r'', s4)"
      by simp
    have "runSchedule env (replicate (Suc (Suc 0)) 0) ([DrainFailed e], s2) =
        ([Finished r''], finallyClearCurrentSync s4)"
      by (rule run_step [OF st run_step [OF fin run_none]])
    then have "runSchedule env (replicate (Suc (Suc 0)) 0)
        (case r of Inl e \<Rightarrow> ([DrainFailed e], s2) | Inr u \<Rightarrow> ([DrainCommit l], s2)) =
          ([Finished r''], finallyClearCurrentSync s4)"
      by (simp only: Inl sum.case)
    then show ?thesis by (rule exI)
  next
    case (Inr u)
    then have u: "updateRemoteBookmarks env l s2 = (r', s3)" using c by simp
    show ?thesis
    proof (cases r')
      case (Inl err)
      then have "catchFailedSync err env s3 = (r'', s4)" using h by simp
      then have sf: "step env (DrainFailed err) s3 = (DrainFinally r'', s4)"
        by simp
      have sc: "step env (DrainCommit l) s2 = (DrainFailed err, s3)"
        using u Inl by simp
      have "runSchedule env (replicate (Suc (Suc (Suc 0))) 0) ([DrainCommit l], s2) =
          ([Finished r''], finallyClearCurrentSync s4)"
        by (rule run_step [OF sc run_step [OF sf run_step [OF fin run_none]]])
      then have "runSchedule env (replicate (Suc (Suc (Suc 0))) 0)
          (case r of Inl e \<Rightarrow> ([DrainFailed e], s2) | Inr u \<Rightarrow> ([DrainCommit l], s2)) =
            ([Finished r''], finallyClearCurrentSync s4)"
        by (simp only: Inr sum.case)
      then show ?thesis by (rule exI)
    next
      case (Inr v)
      then have "r'' = Inr ()" "s4 = s3" using h by simp_all
      then have sc: "step env (DrainCommit l) s2 = (DrainFinally r'', s4)"
        using u Inr by simp
      have "runSchedule env (replicate (Suc (Suc 0)) 0) ([DrainCommit l], s2) =
          ([Finished r''], finallyClearCurrentSync s4)"
        by (rule run_step [OF sc run_step [OF fin run_none]])
      then have "runSchedule env (replicate (Suc (Suc 0)) 0)
          (case r of Inl e \<Rightarrow> ([DrainFailed e], s2) | Inr u \<Rightarrow> ([DrainCommit l], s2)) =
            ([Finished r''], finallyClearCurrentSync s4)"
        by (simp only: \<open>r = Inr u\<close> sum.case)
      then show ?thesis by (rule exI)
    qed
  qed
  then obtain m where m: "runSchedule env (replicate m 0)
      (case r of Inl e \<Rightarrow> ([DrainFailed e], s2) | Inr u \<Rightarrow> ([DrainCommit l], s2)) =
        ([Finished r''], finallyClearCurrentSync s4)"
    by blast
  have "runSchedule env (replicate (n + m) 0) ([DrainLoop isBackgroundSync l0], s1) =
      ([Finished r''], finallyClearCurrentSync s4)"
    by (simp only: replicate_add runSchedule_append n m)
  then have "runSchedule env (replicate (Suc (Suc (n + m))) 0) ([DrainCalled isBackgroundSync], s) =
      ([Finished r''], finallyClearCurrentSync s4)"
    by (rule run_step [OF st1 run_step [OF st2]])
  then have "runSchedule env (replicate (Suc (Suc (n + m))) 0) ([DrainCalled isBackgroundSync], s) =
      ([Finished (fst (processSyncQueue env isBackgroundSync s))],
       snd (processSyncQueue env isBackgroundSync s))"
    by (simp only: P fst_conv snd_conv)
  then show ?thesis by (rule exI)
qed

text \<open>
  A call of \<^verbatim>\<open>queueSync\<close> that runs alone, its drain included, ends in the state that
  \<open>queueSync\<close> gives.
\<close>

lemma queueSync_alone:
  "\<exists>n r. runSchedule env (replicate n 0) ([QueueSyncCalled syncToQueue runSync], s) =
           ([Finished r], snd (queueSync env syncToQueue runSync s))"
proof (cases syncToQueue)
  case None
  define s1 where "s1 = (if \<not> syncEnabled s then s\<lparr>syncQueue := []\<rparr> else s)"
  have st: "step env (QueueSyncCalled syncToQueue runSync) s =
      (Finished (Inl (NativeError ''TypeError'')), s1)"
    using None by (simp add: s1_def)
  have Q: "snd (queueSync env syncToQueue runSync s) = s1"
    using None by (simp add: queueSync_def s1_def)
  have "runSchedule env (replicate (Suc 0) 0) ([QueueSyncCalled syncToQueue runSync], s) =
      ([Finished (Inl (NativeError ''TypeError''))], s1)"
    by (rule run_step [OF st run_none])
  then have "runSchedule env (replicate (Suc 0) 0) ([QueueSyncCalled syncToQueue runSync], s) =
      ([Finished (Inl (NativeError ''TypeError''))], snd (queueSync env syncToQueue runSync s))"
    by (simp only: Q)
  then show ?thesis by blast
next
  case (Some new)
  define s1 where "s1 = (if \<not> syncEnabled s then s\<lparr>syncQueue := []\<rparr> else s)"
  define s2 where "s2 = snd (queueSync_push env new s1)"
  have st: "step env (QueueSyncCalled syncToQueue runSync) s =
      (if runSync then DrainCalled False else Finished (Inr ()), s2)"
    using Some by (simp add: s1_def s2_def split_beta)
  show ?thesis
  proof (cases runSync)
    case True
    have Q: "snd (queueSync env syncToQueue runSync s) = snd (processSyncQueue env False s2)"
      using Some True by (simp add: queueSync_def s1_def s2_def split_beta Let_def)
    have st': "step env (QueueSyncCalled syncToQueue runSync) s = (DrainCalled False, s2)"
      using st True by simp
    obtain n where n: "runSchedule env (replicate n 0) ([DrainCalled False], s2) =
        ([Finished (fst (processSyncQueue env False s2))], snd (processSyncQueue env False s2))"
      using drain_alone [of env False s2] by blast
    have "runSchedule env (replicate (Suc n) 0) ([QueueSyncCalled syncToQueue runSync], s) =
        ([Finished (fst (processSyncQueue env False s2))], snd (processSyncQueue env False s2))"
      by (rule run_step [OF st' n])
    then have "runSchedule env (replicate (Suc n) 0) ([QueueSyncCalled syncToQueue runSync], s) =
        ([Finished (fst (processSyncQueue env False s2))],
         snd (queueSync env syncToQueue runSync s))"
      by (simp only: Q)
    then show ?thesis by blast
  next
    case False
    have Q: "snd (queueSync env syncToQueue runSync s) = s2"
      using Some False by (simp add: queueSync_def s1_def s2_def split_beta Let_def)
    have st': "step env (QueueSyncCalled syncToQueue runSync) s = (Finished (Inr ()), s2)"
      using st False by simp
    have "runSchedule env (replicate (Suc 0) 0) ([QueueSyncCalled syncToQueue runSync], s) =
        ([Finished (Inr ())], s2)"
      by (rule run_step [OF st' run_none])
    then have "runSchedule env (replicate (Suc 0) 0) ([QueueSyncCalled syncToQueue runSync], s) =
        ([Finished (Inr ())], snd (queueSync env syncToQueue runSync s))"
      by (simp only: Q)
    then show ?thesis by blast
  qed
qed

text \<open>Two drains that find no sync in flight both go on, whichever is called first.\<close>

lemma guard_passed_twice:
  assumes "currentSync s = None" and "syncQueue s \<noteq> []"
  shows "runSchedule env [0, 1] ([DrainCalled b0, DrainCalled b1], s)
           = ([DrainStarted b0, DrainStarted b1], s)"
  using assms by simp

text \<open>
  Two calls of \<^verbatim>\<open>queueSync\<close> with \<^verbatim>\<open>runSync\<close>, for any two syncs that are not cancels
  and any collaborators, on an idle engine with sync enabled and an empty queue, their
  callbacks alternating: both drains pass the guard, and after both have shifted the
  second sync is the current one, the queue is empty and nothing has been settled. The
  first sync is then neither queued nor current.
\<close>

lemma overlapping_drains_shift:
  assumes idle: "currentSync s = None" and en: "syncEnabled s" and q: "syncQueue s = []"
    and t0: "new_type new0 \<noteq> Cancel" and t1: "new_type new1 \<noteq> Cancel"
  shows "\<exists>q0 q1 s'.
           runSchedule env [0, 1, 0, 1, 0, 1, 0, 1]
             ([QueueSyncCalled (Some new0) True, QueueSyncCalled (Some new1) True], s)
           = ([ActionShifted False \<lparr>processedBookmarksData = None, updateRemoteVar = False\<rparr>,
               ActionShifted False \<lparr>processedBookmarksData = None, updateRemoteVar = False\<rparr>], s')
         \<and> fst (runSchedule env [0, 1, 0, 1]
             ([QueueSyncCalled (Some new0) True, QueueSyncCalled (Some new1) True], s))
           = [DrainStarted False, DrainStarted False]
         \<and> syncQueue (snd (runSchedule env [0, 1]
             ([QueueSyncCalled (Some new0) True, QueueSyncCalled (Some new1) True], s))) = [q0, q1]
         \<and> deferred q0 = deferredCount s \<and> deferred q1 = Suc (deferredCount s)
         \<and> type q0 = new_type new0 \<and> type q1 = new_type new1
         \<and> currentSync s' = Some q1 \<and> syncQueue s' = []
         \<and> observed s' = observed s"
  using assms
  by (simp add: queueSync_push_def Let_def syncEnabled_def setIsSyncing_def observed_def notable_def)

text \<open>
  Claim C5, for two calls of \<^verbatim>\<open>queueSync\<close> that overlap. The calls queue two remote
  syncs, with the deferreds 0 and 1, and the callbacks of the two chains alternate. Both
  drains find no sync in flight and a queue that is not empty, so both go on past the
  guard. Each then shifts a sync into \<^verbatim>\<open>currentSync\<close>: the second shift replaces the
  first sync before the first drain has read it, and the queue is empty. Both drains
  process the second sync: the provider is called on it twice, its deferred is resolved
  twice, the remote bookmarks are updated twice, and the deferred of the first sync is
  never settled though both drains end well. In the second schedule the first drain runs
  to its end once both have shifted: its \<^verbatim>\<open>finally\<close> clears \<^verbatim>\<open>currentSync\<close> while the
  second drain is in \<^verbatim>\<open>action\<close>, and the second drain fails with a \<^verbatim>\<open>TypeError\<close>.
\<close>

theorem overlapping_drains_race:
  "fst (runSchedule example_env [0, 1, 0, 1] example_calls)
     = [DrainStarted False, DrainStarted False]
   \<and> currentSync (snd (runSchedule example_env [0, 1, 0, 1] example_calls)) = None
   \<and> syncQueue (snd (runSchedule example_env [0, 1, 0, 1] example_calls))
       = [example_sync Remote 0, example_sync Remote 1]
   \<and> fst (runSchedule example_env [0, 1, 0, 1, 0, 1, 0, 1] example_calls)
       = [ActionShifted False \<lparr>processedBookmarksData = None, updateRemoteVar = False\<rparr>,
          ActionShifted False \<lparr>processedBookmarksData = None, updateRemoteVar = False\<rparr>]
   \<and> currentSync (snd (runSchedule example_env [0, 1, 0, 1, 0, 1, 0, 1] example_calls))
       = Some (example_sync Remote 1)
   \<and> syncQueue (snd (runSchedule example_env [0, 1, 0, 1, 0, 1, 0, 1] example_calls)) = []
   \<and> fst (runSchedule example_env [0, 1, 0, 1, 0, 1, 0, 1, 0, 1, 0, 1, 0, 1, 0, 1, 0, 1]
            example_calls)
       = [Finished (Inr ()), Finished (Inr ())]
   \<and> filter isProcessSync (trace (snd (runSchedule example_env
            [0, 1, 0, 1, 0, 1, 0, 1, 0, 1, 0, 1, 0, 1, 0, 1, 0, 1] example_calls)))
       = [ProviderProcessSync 0 (example_sync Remote 1),
          ProviderProcessSync 0 (example_sync Remote 1)]
   \<and> observed (snd (runSchedule example_env
            [0, 1, 0, 1, 0, 1, 0, 1, 0, 1, 0, 1, 0, 1, 0, 1, 0, 1] example_calls))
       = [DeferredResolve 1, DeferredResolve 1,
          ApiUpdateBookmarks ''enc'', ApiUpdateBookmarks ''enc'']
   \<and> deferredState (trace (snd (runSchedule example_env
            [0, 1, 0, 1, 0, 1, 0, 1, 0, 1, 0, 1, 0, 1, 0, 1, 0, 1] example_calls))) 0 = Pending
   \<and> fst (runSchedule example_env [0, 1, 0, 1, 0, 1, 0, 1, 0, 0, 0, 0, 0, 1, 1, 1]
            example_calls)
       = [Finished (Inr ()), Finished (Inl (NativeError ''TypeError''))]
   \<and> observed (snd (runSchedule example_env [0, 1, 0, 1, 0, 1, 0, 1, 0, 0, 0, 0, 0, 1, 1, 1]
            example_calls))
       = [DeferredResolve 1, ApiUpdateBookmarks ''enc'']
   \<and> deferredState (trace (snd (runSchedule example_env
            [0, 1, 0, 1, 0, 1, 0, 1, 0, 0, 0, 0, 0, 1, 1, 1] example_calls))) 0 = Pending"
  by (simp add: example_defs engine_defs queueSync_push_def observed_def notable_def)

subsection \<open>Cancelling\<close>







subsection \<open>The settlement of a request that fails\<close>








lemma syncEnabled_set_LastUpdated [simp]:
  "syncEnabled (storeSvc_set LastUpdated v s) = syncEnabled s"
  by (simp add: syncEnabled_def)

lemma handleFailedSync_recover_enabled [simp]:
  "syncEnabled (snd (handleFailedSync_recover env f enabled err s)) = syncEnabled s"
  by (simp add: handleFailedSync_recover_def Let_def syncEnabled_def split: option.splits)






subsection \<open>The decision to update the remote bookmarks\<close>

text \<open>
  The flag \<^verbatim>\<open>updateRemote\<close> after the syncs of a list, from a start value and for
  a verdict \<open>v\<close>; a definition for the proofs, which follow the loop.
\<close>

fun flagAfter :: "(Sync \<Rightarrow> bool) \<Rightarrow> bool \<Rightarrow> Sync list \<Rightarrow> bool" where
  "flagAfter v b [] = b"
| "flagAfter v b (x # xs) =
     flagAfter v (if \<not> v x then False else if type x \<noteq> Local then True else b) xs"

lemma flagAfter_snoc:
  "flagAfter v b (xs @ [x]) =
     (if \<not> v x then False else if type x \<noteq> Local then True else flagAfter v b xs)"
  by (induction xs arbitrary: b) simp_all

lemma flagAfter_closed:
  "flagAfter v b xs =
     (list_ex (\<lambda>x. type x \<noteq> Local) (takeWhile v (rev xs)) \<or> (b \<and> list_all v xs))"
proof (induction xs rule: rev_induct)
  case Nil
  then show ?case by simp
next
  case (snoc x xs)
  show ?case
  proof (cases "v x")
    case True
    then show ?thesis using snoc by (auto simp: flagAfter_snoc)
  next
    case False
    then show ?thesis by (simp add: flagAfter_snoc)
  qed
qed

lemma fold_extractResult_defined:
  "(fst (fold extractResult prs acc) \<noteq> None) =
     (fst acc \<noteq> None \<or> (\<exists>pr \<in> set prs. providerClass (fst pr) = BookmarkSyncProviderService))"
proof (induction prs arbitrary: acc)
  case Nil
  then show ?case by simp
next
  case (Cons pr prs)
  have "(fst (extractResult pr acc) \<noteq> None) =
      (fst acc \<noteq> None \<or> providerClass (fst pr) = BookmarkSyncProviderService)"
    by (cases "providerClass (fst pr)") (auto simp: extractResult_def)
  then show ?case using Cons.IH [of "extractResult pr acc"] by auto
qed

lemma zip_bookmark_provider_iff:
  assumes "length rs = length ps"
  shows "(\<exists>pr \<in> set (zip ps rs). providerClass (fst pr) = BookmarkSyncProviderService)
           = list_ex (\<lambda>p. providerClass p = BookmarkSyncProviderService) ps"
proof
  assume "\<exists>pr \<in> set (zip ps rs). providerClass (fst pr) = BookmarkSyncProviderService"
  then obtain p r where "(p, r) \<in> set (zip ps rs)" "providerClass p = BookmarkSyncProviderService"
    by auto
  then show "list_ex (\<lambda>p. providerClass p = BookmarkSyncProviderService) ps"
    by (auto simp: list_ex_iff dest: set_zip_leftD)
next
  assume "list_ex (\<lambda>p. providerClass p = BookmarkSyncProviderService) ps"
  then have "\<exists>p \<in> set ps. providerClass p = BookmarkSyncProviderService"
    by (simp add: list_ex_iff)
  then show "\<exists>pr \<in> set (zip ps rs). providerClass (fst pr) = BookmarkSyncProviderService"
    using zip_has_bookmark_provider assms by blast
qed

lemma disableSync_clears_queue:
  "syncEnabled s \<Longrightarrow> fst (disableSync env s) = Inr () \<Longrightarrow> syncQueue (snd (disableSync env s)) = []"
  by (simp add: disableSync_def Let_def split: option.splits)

text \<open>One run of \<^verbatim>\<open>action\<close>, by the kind of the sync at the head of the queue.\<close>

lemma action_cancel_disabled:
  assumes q: "syncQueue s = x # rest" and ty: "type x = Cancel" and en: "\<not> syncEnabled s"
  shows "\<exists>s'. action env isBackgroundSync l s = (Inr (), l\<lparr>updateRemoteVar := False\<rparr>, s')
           \<and> syncQueue s' = rest \<and> \<not> syncEnabled s'"
proof -
  define s3 where "s3 = setIsSyncing (Some (type x))
      (emit (LogInfo (ProcessingSync (uniqueId x) isBackgroundSync (length rest)))
        (s\<lparr>currentSync := Some x, syncQueue := rest\<rparr>))"
  have s3: "syncQueue s3 = rest" "\<not> syncEnabled s3"
    using en by (simp_all add: s3_def syncEnabled_def)
  have ap: "action_process env x l s3 = (Inr False, l, s3)"
    using ty s3 by (simp add: action_process_def sync_handleCancel_def disableSync_disabled)
  have ac: "action_complete env x False l s3 =
      (Inr (), l\<lparr>updateRemoteVar := False\<rparr>,
       setIsSyncing None (emit (DeferredResolve (deferred x)) s3))"
    using ty by (simp add: action_complete_def)
  have "action env isBackgroundSync l s =
      (Inr (), l\<lparr>updateRemoteVar := False\<rparr>,
       setIsSyncing None (emit (DeferredResolve (deferred x)) s3))"
    using q ap ac by (simp add: action_def Let_def s3_def [symmetric])
  then show ?thesis using s3 by simp
qed

lemma action_cancel_enabled:
  assumes q: "syncQueue s = x # rest" and ty: "type x = Cancel" and en: "syncEnabled s"
  shows "case q_all_void (map disable (providers env)) of
           Some e \<Rightarrow> fst (action env isBackgroundSync l s) = Inl e
         | None \<Rightarrow> (\<exists>s'. action env isBackgroundSync l s = (Inr (), l\<lparr>updateRemoteVar := False\<rparr>, s')
                      \<and> syncQueue s' = [] \<and> \<not> syncEnabled s')"
proof -
  define s3 where "s3 = setIsSyncing (Some (type x))
      (emit (LogInfo (ProcessingSync (uniqueId x) isBackgroundSync (length rest)))
        (s\<lparr>currentSync := Some x, syncQueue := rest\<rparr>))"
  have s3: "syncQueue s3 = rest" "syncEnabled s3"
    using en by (simp_all add: s3_def syncEnabled_def)
  obtain rd sd where d: "disableSync env s3 = (rd, sd)" by (cases "disableSync env s3") auto
  have ap: "action_process env x l s3 =
      (case rd of Inl e \<Rightarrow> (Inl e, l, sd) | Inr u \<Rightarrow> (Inr False, l, sd))"
    using ty d by (simp add: action_process_def sync_handleCancel_def split: sum.splits)
  show ?thesis
  proof (cases "q_all_void (map disable (providers env))")
    case (Some e)
    then have "rd = Inl e" using d s3 by (auto simp: disableSync_def Let_def)
    then have "action env isBackgroundSync l s = (Inl e, l, sd)"
      using q ap by (simp add: action_def Let_def s3_def [symmetric])
    then show ?thesis using Some by simp
  next
    case None
    then have rd: "rd = Inr ()" using d s3 by (auto simp: disableSync_def Let_def)
    have qd: "syncQueue sd = []"
      using disableSync_clears_queue [of s3 env] d rd s3 by simp
    have ed: "\<not> syncEnabled sd"
      using disableSync_not_enabled [of env s3] d by simp
    have ac: "action_complete env x False l sd =
        (Inr (), l\<lparr>updateRemoteVar := False\<rparr>,
         setIsSyncing None (emit (DeferredResolve (deferred x)) sd))"
      using ty by (simp add: action_complete_def)
    have "action env isBackgroundSync l s =
        (Inr (), l\<lparr>updateRemoteVar := False\<rparr>,
         setIsSyncing None (emit (DeferredResolve (deferred x)) sd))"
      using q ap rd ac by (simp add: action_def Let_def s3_def [symmetric])
    then show ?thesis using None qd ed by simp
  qed
qed

lemma action_providers_reject:
  assumes q: "syncQueue s = x # rest" and ty: "type x \<noteq> Cancel"
    and rj: "\<not> providersSucceed env x"
  shows "\<exists>e. fst (action env isBackgroundSync l s) = Inl e"
proof -
  obtain e where "q_all (map (\<lambda>provider. processSync provider x) (providers env)) = Inl e"
    using rj by (auto simp: providersSucceed_def split: sum.splits)
  then show ?thesis
    using q ty by (simp add: action_def action_process_def Let_def)
qed

lemma action_providers_resolve:
  assumes q: "syncQueue s = x # rest" and ty: "type x \<noteq> Cancel"
    and ok: "providersSucceed env x"
  shows "if syncEnabled s \<or> command x = Some RestoreBookmarks
            \<or> q_all_void (map enable (providers env)) = None
         then (\<exists>l' s'. action env isBackgroundSync l s = (Inr (), l', s')
                \<and> updateRemoteVar l' =
                    (if \<not> aggregatedVerdict env x then False
                     else if type x \<noteq> Local then True else updateRemoteVar l)
                \<and> (processedBookmarksData l' \<noteq> None) =
                    (processedBookmarksData l \<noteq> None \<or> hasBookmarkProvider env)
                \<and> syncQueue s' = rest
                \<and> syncEnabled s' = (syncEnabled s \<or> command x \<noteq> Some RestoreBookmarks))
         else (\<exists>e. fst (action env isBackgroundSync l s) = Inl e)"
proof -
  obtain results where rs: "q_all (map (\<lambda>provider. processSync provider x) (providers env)) = Inr results"
    using ok by (auto simp: providersSucceed_def split: sum.splits)
  have v: "aggregatedVerdict env x = combineResults results"
    using rs by (simp add: aggregatedVerdict_def)
  have len: "length results = length (providers env)"
    using q_all_length [OF rs] by simp
  define s3 where "s3 = setIsSyncing (Some (type x))
      (emit (LogInfo (ProcessingSync (uniqueId x) isBackgroundSync (length rest)))
        (s\<lparr>currentSync := Some x, syncQueue := rest\<rparr>))"
  define s4 where "s4 = emits (providerCalls env (\<lambda>i. ProviderProcessSync i x)) s3"
  define acc where "acc = fold extractResult (zip (providers env) results)
      (processedBookmarksData l, s4)"
  define l1 where "l1 = l\<lparr>processedBookmarksData := fst acc\<rparr>"
  define l2 where "l2 = l1\<lparr>updateRemoteVar :=
           (if \<not> combineResults results then False else if type x \<noteq> Local then True
            else updateRemoteVar l)\<rparr>"
  have e4: "syncEnabled (snd acc) = syncEnabled s"
    by (simp add: acc_def s4_def s3_def syncEnabled_def)
  have q4: "syncQueue (snd acc) = rest"
    by (simp add: acc_def s4_def s3_def)
  have pb: "(fst acc \<noteq> None) = (processedBookmarksData l \<noteq> None \<or> hasBookmarkProvider env)"
    unfolding acc_def hasBookmarkProvider_def
    using fold_extractResult_defined [of "zip (providers env) results" "(processedBookmarksData l, s4)"]
      zip_bookmark_provider_iff [OF len]
    by simp
  have l2: "updateRemoteVar l2 = (if \<not> aggregatedVerdict env x then False
                     else if type x \<noteq> Local then True else updateRemoteVar l)"
      "(processedBookmarksData l2 \<noteq> None) = (processedBookmarksData l \<noteq> None \<or> hasBookmarkProvider env)"
    using pb v by (simp_all add: l2_def l1_def)
  have ap: "action_process env x l s3 = (Inr (combineResults results), l1, snd acc)"
    using ty rs by (simp add: action_process_def Let_def s4_def acc_def l1_def split_beta)
  have a: "action env isBackgroundSync l s = action_complete env x (combineResults results) l1 (snd acc)"
    using q ap by (simp add: action_def Let_def s3_def [symmetric])
  show ?thesis
  proof (cases "syncEnabled s \<or> command x = Some RestoreBookmarks")
    case True
    then have "action_complete env x (combineResults results) l1 (snd acc) =
        (Inr (), l2, setIsSyncing None (emit (DeferredResolve (deferred x)) (snd acc)))"
      using e4 by (auto simp: action_complete_def l2_def l1_def)
    then have "action env isBackgroundSync l s =
        (Inr (), l2, setIsSyncing None (emit (DeferredResolve (deferred x)) (snd acc)))"
      using a by simp
    moreover have "syncEnabled (snd acc) = (syncEnabled s \<or> command x \<noteq> Some RestoreBookmarks)"
      using True e4 by auto
    ultimately show ?thesis using True l2 q4 by auto
  next
    case False
    then have en: "\<not> syncEnabled (snd acc)" "command x \<noteq> Some RestoreBookmarks"
      using e4 by simp_all
    show ?thesis
    proof (cases "q_all_void (map enable (providers env))")
      case None
      define se where "se = emits (providerCalls env ProviderEnable)
          (emit AutomaticUpdatesStart (storeSvc_set SyncEnabled (VBool True) (snd acc)))"
      have se: "enableSync env (snd acc) = (Inr (), se)"
        using None by (simp add: enableSync_def Let_def se_def)
      have "action_complete env x (combineResults results) l1 (snd acc) =
          (Inr (), l2, setIsSyncing None (emit (DeferredResolve (deferred x))
             (emit (LogInfo SyncEnabledMsg) se)))"
        using en ty se by (simp add: action_complete_def l2_def l1_def)
      then have "action env isBackgroundSync l s =
          (Inr (), l2, setIsSyncing None (emit (DeferredResolve (deferred x))
             (emit (LogInfo SyncEnabledMsg) se)))"
        using a by simp
      moreover have "syncQueue se = rest" "syncEnabled se"
        using q4 by (simp_all add: se_def syncEnabled_def)
      ultimately show ?thesis using None l2 en by auto
    next
      case (Some e)
      obtain se where se: "enableSync env (snd acc) = (Inl e, se)"
        using Some by (simp add: enableSync_def Let_def)
      have "fst (action_complete env x (combineResults results) l1 (snd acc)) = Inl e"
        using en ty se by (simp add: action_complete_def)
      then show ?thesis using a Some False by auto
    qed
  qed
qed

lemma promiseWhile_decision:
  "case processedRequests env (syncEnabled s) (syncQueue s) of
     None \<Rightarrow> (\<exists>e. fst (promiseWhile env isBackgroundSync l s) = Inl e)
   | Some ys \<Rightarrow>
       (\<exists>l' s'. promiseWhile env isBackgroundSync l s = (Inr (), l', s')
          \<and> updateRemoteVar l' = flagAfter (effectiveVerdict env) (updateRemoteVar l) ys
          \<and> (processedBookmarksData l' \<noteq> None) =
              (processedBookmarksData l \<noteq> None
               \<or> (hasBookmarkProvider env \<and> list_ex (\<lambda>x. type x \<noteq> Cancel) ys)))"
proof (induction "syncQueue s" arbitrary: s l)
  case Nil
  then show ?case by (simp add: promiseWhile.simps [of env isBackgroundSync l s])
next
  case (Cons x rest)
  have q: "syncQueue s = x # rest" using Cons.hyps(2) by simp
  note pw = promiseWhile.simps [of env isBackgroundSync l s]
  show ?case
  proof (cases "type x = Cancel")
    case True
    note ty = True
    show ?thesis
    proof (cases "syncEnabled s")
      case False
      from action_cancel_disabled [OF q ty False, of env isBackgroundSync l]
      obtain s1 where a: "action env isBackgroundSync l s = (Inr (), l\<lparr>updateRemoteVar := False\<rparr>, s1)"
          "syncQueue s1 = rest" "\<not> syncEnabled s1"
        by blast
      have pr: "processedRequests env (syncEnabled s) (syncQueue s) =
          map_option ((#) x) (processedRequests env (syncEnabled s1) (syncQueue s1))"
        using q ty False a by simp
      have step: "promiseWhile env isBackgroundSync l s =
          promiseWhile env isBackgroundSync (l\<lparr>updateRemoteVar := False\<rparr>) s1"
        using q a(1) by (simp add: pw)
      from Cons.hyps(1) [OF a(2) [symmetric], of "l\<lparr>updateRemoteVar := False\<rparr>"]
      show ?thesis
        using pr step ty
        by (cases "processedRequests env (syncEnabled s1) (syncQueue s1)")
           (auto simp: effectiveVerdict_def)
    next
      case en: True
      show ?thesis
      proof (cases "q_all_void (map disable (providers env))")
        case (Some e)
        then have "fst (action env isBackgroundSync l s) = Inl e"
          using action_cancel_enabled [OF q ty en, of env isBackgroundSync l] by simp
        then have "fst (promiseWhile env isBackgroundSync l s) = Inl e"
          using q by (cases "action env isBackgroundSync l s") (simp add: pw)
        then show ?thesis using q ty en Some by simp
      next
        case None
        then obtain s1 where a: "action env isBackgroundSync l s = (Inr (), l\<lparr>updateRemoteVar := False\<rparr>, s1)"
            "syncQueue s1 = []"
          using action_cancel_enabled [OF q ty en, of env isBackgroundSync l] by auto
        have "promiseWhile env isBackgroundSync l s = (Inr (), l\<lparr>updateRemoteVar := False\<rparr>, s1)"
          using q a
          by (simp add: pw promiseWhile.simps [of env isBackgroundSync "l\<lparr>updateRemoteVar := False\<rparr>" s1])
        then show ?thesis using q ty en None by (simp add: effectiveVerdict_def)
      qed
    qed
  next
    case False
    note ty = False
    show ?thesis
    proof (cases "providersSucceed env x")
      case False
      from action_providers_reject [OF q ty False, of isBackgroundSync l]
      obtain e where "fst (action env isBackgroundSync l s) = Inl e" by blast
      then have "fst (promiseWhile env isBackgroundSync l s) = Inl e"
        using q by (cases "action env isBackgroundSync l s") (simp add: pw)
      then show ?thesis using q ty False by simp
    next
      case ok: True
      note ar = action_providers_resolve [OF q ty ok, of isBackgroundSync l]
      show ?thesis
      proof (cases "syncEnabled s \<or> command x = Some RestoreBookmarks
            \<or> q_all_void (map enable (providers env)) = None")
        case False
        then obtain e where "fst (action env isBackgroundSync l s) = Inl e"
          using ar by auto
        then have "fst (promiseWhile env isBackgroundSync l s) = Inl e"
          using q by (cases "action env isBackgroundSync l s") (simp add: pw)
        then show ?thesis using q ty ok False by auto
      next
        case True
        then obtain l1 s1 where a: "action env isBackgroundSync l s = (Inr (), l1, s1)"
            "updateRemoteVar l1 =
                    (if \<not> aggregatedVerdict env x then False
                     else if type x \<noteq> Local then True else updateRemoteVar l)"
            "(processedBookmarksData l1 \<noteq> None) =
                    (processedBookmarksData l \<noteq> None \<or> hasBookmarkProvider env)"
            "syncQueue s1 = rest"
            "syncEnabled s1 = (syncEnabled s \<or> command x \<noteq> Some RestoreBookmarks)"
          using ar by auto
        have pr: "processedRequests env (syncEnabled s) (syncQueue s) =
            map_option ((#) x) (processedRequests env (syncEnabled s1) (syncQueue s1))"
          using q ty ok True a(4,5) by auto
        have step: "promiseWhile env isBackgroundSync l s = promiseWhile env isBackgroundSync l1 s1"
          using q a(1) by (simp add: pw)
        have fl: "\<And>ys. flagAfter (effectiveVerdict env) (updateRemoteVar l) (x # ys) =
            flagAfter (effectiveVerdict env) (updateRemoteVar l1) ys"
          using a(2) ty by (simp add: effectiveVerdict_def)
        from Cons.hyps(1) [OF a(4) [symmetric], of l1]
        show ?thesis
          using pr step ty fl a(3)
          by (cases "processedRequests env (syncEnabled s1) (syncQueue s1)") auto
      qed
    qed
  qed
qed

lemma isCommit_notable: "isCommit e \<Longrightarrow> notable e"
  by (cases e) simp_all

lemma filter_isCommit_observed:
  "filter isCommit (trace s) = filter isCommit (observed s)"
  by (auto simp: observed_def intro: filter_cong dest: isCommit_notable)

lemma filter_isCommit_resolves [simp]:
  "filter isCommit (map (\<lambda>x. DeferredResolve (deferred x)) xs) = []"
  by (induction xs) simp_all

lemma catchFailedSync_commits:
  "filter isCommit (observed (snd (catchFailedSync err env s))) = filter isCommit (observed s)"
proof (cases "currentSync s")
  case None
  then show ?thesis by (simp add: catchFailedSync_def)
next
  case (Some x)
  from catchFailedSync_shape [OF Some, of err env] show ?thesis by auto
qed

lemma processSyncQueue_commits:
  assumes idle: "currentSync s = None"
    and ne: "syncQueue s \<noteq> []"
    and loop: "promiseWhile env isBackgroundSync
                 \<lparr>processedBookmarksData = None, updateRemoteVar = False\<rparr>
                 (if syncEnabled s then emit AutomaticUpdatesStop s else s) = (r, l, s2)"
  shows "filter isCommit (trace (snd (processSyncQueue env isBackgroundSync s))) =
           filter isCommit (trace s)
           @ (case r of
                Inl e \<Rightarrow> []
              | Inr u \<Rightarrow>
                  (if updateRemoteVar l
                   then (case processedBookmarksData l of
                           None \<Rightarrow> []
                         | Some d \<Rightarrow> [ApiUpdateBookmarks (encryptedBookmarks d)])
                   else []))"
proof -
  define s1 where "s1 = (if syncEnabled s then emit AutomaticUpdatesStop s else s)"
  have s1: "observed s1 = observed s" by (simp add: s1_def)
  from promiseWhile_shape [OF loop [folded s1_def]] obtain processed :: "Sync list" where
      "observed s2 = observed s1 @ map (\<lambda>x. DeferredResolve (deferred x)) processed"
    by auto
  then have c2: "filter isCommit (observed s2) = filter isCommit (observed s)"
    using s1 by simp
  obtain r' s3 where c: "(case r of Inl e \<Rightarrow> (Inl e, s2)
                          | Inr u \<Rightarrow> updateRemoteBookmarks env l s2) = (r', s3)"
    by (cases "case r of Inl e \<Rightarrow> (Inl e, s2) | Inr u \<Rightarrow> updateRemoteBookmarks env l s2") auto
  have c3: "filter isCommit (observed s3) = filter isCommit (observed s)
           @ (case r of
                Inl e \<Rightarrow> []
              | Inr u \<Rightarrow>
                  (if updateRemoteVar l
                   then (case processedBookmarksData l of
                           None \<Rightarrow> []
                         | Some d \<Rightarrow> [ApiUpdateBookmarks (encryptedBookmarks d)])
                   else []))"
  proof (cases r)
    case (Inl e)
    then have "s3 = s2" using c by simp
    then show ?thesis using c2 Inl by simp
  next
    case (Inr u)
    then have u: "updateRemoteBookmarks env l s2 = (r', s3)" using c by simp
    show ?thesis
    proof (cases "updateRemoteVar l")
      case True
      then show ?thesis
        using updateRemoteBookmarks_shape(1) [of env l s2] u c2 Inr
        by (cases "processedBookmarksData l") simp_all
    next
      case False
      then show ?thesis
        using updateRemoteBookmarks_shape(1) [of env l s2] u c2 Inr by simp
    qed
  qed
  obtain r'' s4 where h: "(case r' of Inl err \<Rightarrow> catchFailedSync err env s3
                           | Inr u \<Rightarrow> (Inr (), s3)) = (r'', s4)"
    by (cases "case r' of Inl err \<Rightarrow> catchFailedSync err env s3 | Inr u \<Rightarrow> (Inr (), s3)") auto
  have c4: "filter isCommit (observed s4) = filter isCommit (observed s3)"
  proof (cases r')
    case (Inl err)
    then show ?thesis using h catchFailedSync_commits [of err env s3] by simp
  next
    case (Inr u)
    then show ?thesis using h by simp
  qed
  have "snd (processSyncQueue env isBackgroundSync s) = finallyClearCurrentSync s4"
    using idle ne loop c h
    by (simp add: processSyncQueue_def Let_def)
  then show ?thesis
    using c4 c3 by (simp add: filter_isCommit_observed)
qed

text \<open>
  A queue of a remote sync and then a local sync, both with verdict true: the last sync
  processed is local, and the drain still updates the remote bookmarks.
\<close>

theorem commit_after_local_counterexample:
  "type (last (syncQueue (example_state True [example_sync Remote 0, example_sync Local 1]))) = Local
   \<and> aggregatedVerdict example_env (example_sync Remote 0)
   \<and> aggregatedVerdict example_env (example_sync Local 1)
   \<and> fst (processSyncQueue example_env False
             (example_state True [example_sync Remote 0, example_sync Local 1])) = Inr ()
   \<and> filter isCommit (trace (snd (processSyncQueue example_env False
             (example_state True [example_sync Remote 0, example_sync Local 1]))))
       = [ApiUpdateBookmarks ''enc'']"
  by (simp add: example_defs engine_defs aggregatedVerdict_def)

text \<open>
  Claim C1, as amended. Take a drain started with no sync in flight, on any queue. When
  the loop fails, the drain does not call the remote API's update. When the loop
  completes, the drain calls the update once if a bookmark provider is registered and,
  among the requests processed, one that is not local has an effective verdict of true
  and so has every request processed after it; otherwise it does not call it. So a later
  request with verdict false, or a cancel, withdraws an update that was due, and a later
  local request with verdict true leaves it due.
\<close>

theorem commit_decision:
  assumes idle: "currentSync s = None"
  shows "length (filter isCommit (trace (snd (processSyncQueue env isBackgroundSync s)))) =
           length (filter isCommit (trace s))
           + (case processedRequests env (syncEnabled s) (syncQueue s) of
                None \<Rightarrow> 0
              | Some ys \<Rightarrow>
                  if hasBookmarkProvider env
                     \<and> list_ex (\<lambda>x. type x \<noteq> Local) (takeWhile (effectiveVerdict env) (rev ys))
                  then 1 else 0)"
proof (cases "syncQueue s = []")
  case True
  then show ?thesis by (simp add: processSyncQueue_def)
next
  case False
  define s1 where "s1 = (if syncEnabled s then emit AutomaticUpdatesStop s else s)"
  define l0 where "l0 = \<lparr>processedBookmarksData = None, updateRemoteVar = False\<rparr>"
  have s1: "syncQueue s1 = syncQueue s" "syncEnabled s1 = syncEnabled s"
    by (simp_all add: s1_def)
  obtain r l s2 where pw: "promiseWhile env isBackgroundSync l0 s1 = (r, l, s2)"
    by (cases "promiseWhile env isBackgroundSync l0 s1") auto
  note cm = processSyncQueue_commits [OF idle False pw [unfolded l0_def s1_def]]
  note dc = promiseWhile_decision [where env = env and s = s1 and l = l0
      and isBackgroundSync = isBackgroundSync]
  show ?thesis
  proof (cases "processedRequests env (syncEnabled s) (syncQueue s)")
    case None
    then obtain e where "r = Inl e" using dc pw s1 by auto
    then show ?thesis using cm None by simp
  next
    case (Some ys)
    then have r: "r = Inr ()"
      and fl: "updateRemoteVar l = flagAfter (effectiveVerdict env) False ys"
      and pb: "(processedBookmarksData l \<noteq> None) =
                 (hasBookmarkProvider env \<and> list_ex (\<lambda>x. type x \<noteq> Cancel) ys)"
      using dc pw s1 by (auto simp: l0_def)
    have fc: "updateRemoteVar l =
        list_ex (\<lambda>x. type x \<noteq> Local) (takeWhile (effectiveVerdict env) (rev ys))"
      using fl by (simp add: flagAfter_closed)
    show ?thesis
    proof (cases "updateRemoteVar l")
      case False
      then show ?thesis using cm r Some fc by simp
    next
      case True
      then obtain y where y: "y \<in> set (takeWhile (effectiveVerdict env) (rev ys))"
        using fc by (auto simp: list_ex_iff)
      then have "effectiveVerdict env y" "y \<in> set ys"
        by (auto dest: set_takeWhileD)
      then have nc: "list_ex (\<lambda>x. type x \<noteq> Cancel) ys"
        by (auto simp: list_ex_iff effectiveVerdict_def)
      show ?thesis
      proof (cases "processedBookmarksData l")
        case None
        then have "\<not> hasBookmarkProvider env" using pb nc by simp
        then show ?thesis using cm r Some None True by simp
      next
        case (Some d)
        then have "hasBookmarkProvider env" using pb by simp
        then show ?thesis using cm r \<open>processedRequests env (syncEnabled s) (syncQueue s) = Some ys\<close>
            Some True fc by simp
      qed
    qed
  qed
qed

theorem commit_decision_witness:
  "length (filter isCommit (trace (snd (processSyncQueue example_env False
       (example_state True [example_sync Local 0, example_sync Remote 1]))))) = 1
   \<and> length (filter isCommit (trace (snd (processSyncQueue example_env False
       (example_state True [example_sync Remote 0, example_sync Local 1]))))) = 1
   \<and> length (filter isCommit (trace (snd (processSyncQueue example_env False
       (example_state True [example_sync Local 0]))))) = 0
   \<and> length (filter isCommit (trace (snd (processSyncQueue example_env False
       (example_state True [example_sync Cancel 0, example_sync Remote 1]))))) = 0
   \<and> length (filter isCommit (trace (snd (processSyncQueue example_env False
       (example_state True [example_sync Remote 0, example_sync Cancel 1]))))) = 0
   \<and> length (filter isCommit (trace (snd (processSyncQueue example_env False
       (example_state False [example_sync Cancel 0, example_sync Remote 1]))))) = 1
   \<and> length (filter isCommit (trace (snd (processSyncQueue example_failing_env False
       (example_state True [example_sync Remote 0]))))) = 0"
  using commit_decision [of "example_state True [example_sync Local 0, example_sync Remote 1]"
          example_env False]
        commit_decision [of "example_state True [example_sync Remote 0, example_sync Local 1]"
          example_env False]
        commit_decision [of "example_state True [example_sync Local 0]" example_env False]
        commit_decision [of "example_state True [example_sync Cancel 0, example_sync Remote 1]"
          example_env False]
        commit_decision [of "example_state True [example_sync Remote 0, example_sync Cancel 1]"
          example_env False]
        commit_decision [of "example_state False [example_sync Cancel 0, example_sync Remote 1]"
          example_env False]
        commit_decision [of "example_state True [example_sync Remote 0]"
          example_failing_env False]
  by (simp add: example_defs aggregatedVerdict_def providersSucceed_def combineResults_def
        syncEnabled_def effectiveVerdict_def hasBookmarkProvider_def)

end
